theory Spec2Isabelle
  imports
    Main
    "HOL-Library.AList"
    "HOL-Library.Char_ord"
    "HOL-Library.List_Lexorder"
    "HOL-Library.Product_Lexorder"
    "HOL-Library.Sublist"
begin

section \<open>The collection manager (\<open>collection_manager/manager.py\<close>)\<close>

text \<open>
  The manager keeps a directory of small text files and an index of metadata, one
  \<open>FileMeta\<close> per file, persisted as \<open>index.json\<close> in the same directory. The model
  below follows \<open>class CollectionManager\<close> method by method.

  Conventions of the model.
  \<^item> Text is a list of \<open>char\<close>; the model covers ASCII text, where Python's code points,
    the UTF-8 bytes on disk and HOL's characters coincide.
  \<^item> Paths are POSIX paths, a list of components counted from the root.
  \<^item> Every exception of the source is a value of \<open>error\<close>; a method returns its result
    together with the state it leaves behind, because a Python method that raises keeps
    the mutations it made before raising.
  \<^item> Timestamps are instants (\<open>nat\<close>) instead of their ISO-8601 rendering. A mutating
    method takes the instant \<open>t\<close> the file system stamps on what it writes and the
    instant \<open>now\<close> that \<open>datetime.utcnow()\<close> returns.
  \<^item> \<open>json.dump\<close> and \<open>json.load\<close> are parameters (\<open>dump\<close>, \<open>load\<close>) of the methods
    that persist or read the index.
\<close>

subsection \<open>Constants and data\<close>

abbreviation LF :: char where "LF \<equiv> CHR 0x0A"
abbreviation CR :: char where "CR \<equiv> CHR 0x0D"

definition MAX_FILES :: nat where
  "MAX_FILES = 100"

definition INDEX_FILENAME :: string where
  "INDEX_FILENAME = ''index.json''"

text \<open>\<open>self.index_path.with_suffix(".tmp")\<close> has the name \<open>index.tmp\<close>.\<close>

definition INDEX_TMPNAME :: string where
  "INDEX_TMPNAME = ''index.tmp''"

type_synonym timestamp = nat

record FileMeta =
  filename :: string
  created_at :: timestamp
  last_modified :: timestamp
  size_bytes :: nat
  tags :: "string list"

text \<open>
  The error kinds. \<open>InvalidName\<close> and \<open>InvalidArgument\<close> are both \<open>ValueError\<close> in the
  source (raised by \<open>_sanitize_filename\<close> and by \<open>remove_line\<close>), \<open>CollectionFull\<close> is
  \<open>RuntimeError\<close>, \<open>AlreadyExists\<close> is \<open>FileExistsError\<close>, \<open>NotFound\<close> is
  \<open>FileNotFoundError\<close>, \<open>OutOfRange\<close> is \<open>IndexError\<close> and \<open>IOFailure\<close> is any other
  \<open>OSError\<close> of the file system (\<open>IsADirectoryError\<close> here).
\<close>

datatype error =
  InvalidName | CollectionFull | AlreadyExists | NotFound
  | InvalidArgument | OutOfRange | IOFailure

type_synonym path = "string list"

text \<open>
  An entry of the collection directory: a subdirectory, or a regular file with its
  content and the two times \<open>stat\<close> reports (on POSIX \<open>st_ctime\<close> is the time of the
  last change of the inode, \<open>st_mtime\<close> the time of the last write).
\<close>

record regfile =
  content :: string
  st_ctime :: timestamp
  st_mtime :: timestamp

datatype node = Dir | File regfile

type_synonym dumper = "(string \<times> FileMeta) list \<Rightarrow> string"

text \<open>
  The state: \<open>self.data_dir\<close>, \<open>self._index\<close> (a Python dict, so an association list in
  insertion order, updated with \<open>AList.update\<close> and \<open>AList.delete\<close>) and the entries
  of the directory \<open>self.data_dir\<close> on disk, by name.
\<close>

record mgr_state =
  data_dir :: path
  index :: "(string \<times> FileMeta) list"
  disk :: "(string \<times> node) list"

subsection \<open>Names and paths\<close>

text \<open>Python 3's \<open>\w\<close> on ASCII text: a letter, a digit or the underscore.\<close>

definition is_word_char :: "char \<Rightarrow> bool" where
  "is_word_char c =
     (let n = (of_char c :: nat)
      in (48 \<le> n \<and> n \<le> 57) \<or> (65 \<le> n \<and> n \<le> 90) \<or> (97 \<le> n \<and> n \<le> 122) \<or> n = 95)"

definition is_name_char :: "char \<Rightarrow> bool" where
  "is_name_char c = (is_word_char c \<or> c = CHR ''-'' \<or> c = CHR ''.'' \<or> c = CHR '' '')"

text \<open>
  \<open>FILENAME_RE.match(base)\<close> for \<open>^[\w\-. ]+$\<close>. Without \<open>re.MULTILINE\<close>, \<open>$\<close> matches
  at the end of the string and also just before a newline that ends the string.
\<close>

definition FILENAME_RE_match :: "string \<Rightarrow> bool" where
  "FILENAME_RE_match s =
     (let body = (if s \<noteq> [] \<and> last s = LF then butlast s else s)
      in body \<noteq> [] \<and> list_all is_name_char body)"

text \<open>\<open>os.path.basename\<close> of \<open>posixpath\<close>: what follows the last slash.\<close>

definition basename :: "string \<Rightarrow> string" where
  "basename p = rev (takeWhile (\<lambda>c. c \<noteq> CHR ''/'') (rev p))"

definition sanitize_filename :: "string \<Rightarrow> error + string" where
  "sanitize_filename name =
     (let base = basename name
      in if base = [] \<or> \<not> FILENAME_RE_match base then Inl InvalidName
         else if base = INDEX_FILENAME then Inl InvalidName
         else Inr base)"

text \<open>
  \<open>self.data_dir / fname\<close> for a name without a slash: \<open>pathlib\<close> drops a component
  \<open>.\<close> and keeps every other one, \<open>..\<close> included.
\<close>

definition joinpath :: "path \<Rightarrow> string \<Rightarrow> path" where
  "joinpath d n = (if n = ''.'' then d else d @ [n])"

definition file_path :: "mgr_state \<Rightarrow> string \<Rightarrow> error + path" where
  "file_path s name =
     (case sanitize_filename name of
        Inl e \<Rightarrow> Inl e
      | Inr fname \<Rightarrow> Inr (joinpath (data_dir s) fname))"

text \<open>\<open>path.name\<close>: the last component.\<close>

definition path_name :: "path \<Rightarrow> string" where
  "path_name p = (if p = [] then [] else last p)"

text \<open>
  What the operating system finds at a path: the collection directory itself and its
  parent are directories, a child of the collection directory is looked up by name.
\<close>

definition node_at :: "mgr_state \<Rightarrow> path \<Rightarrow> node option" where
  "node_at s p =
     (if p = data_dir s \<or> p = data_dir s @ [''..''] then Some Dir
      else if p \<noteq> [] \<and> butlast p = data_dir s then map_of (disk s) (last p)
      else None)"

text \<open>
  Where a path leads once \<open>..\<close> is resolved, and whether that is strictly below the
  collection directory.
\<close>

definition norm_step :: "path \<Rightarrow> string \<Rightarrow> path" where
  "norm_step acc c = (if c = ''..'' then butlast acc else if c = ''.'' \<or> c = [] then acc else acc @ [c])"

definition normpath :: "path \<Rightarrow> path" where
  "normpath p = foldl norm_step [] p"

definition inside_collection :: "path \<Rightarrow> path \<Rightarrow> bool" where
  "inside_collection d p = strict_prefix (normpath d) (normpath p)"

subsection \<open>Text files\<close>

text \<open>
  Reading in text mode with the default \<open>newline=None\<close>: \<open>\r\n\<close> and a lone \<open>\r\<close>
  arrive as \<open>\n\<close>, and iterating over the file (or \<open>readlines\<close>) cuts the text after
  every \<open>\n\<close>, which stays at the end of its line.
\<close>

fun translate_newlines :: "string \<Rightarrow> string" where
  "translate_newlines [] = []"
| "translate_newlines [c] = (if c = CR then [LF] else [c])"
| "translate_newlines (c # d # cs) =
     (if c = CR then (if d = LF then LF # translate_newlines cs
                      else LF # translate_newlines (d # cs))
      else c # translate_newlines (d # cs))"

fun split_lines :: "string \<Rightarrow> string list" where
  "split_lines [] = []"
| "split_lines (c # cs) =
     (if c = LF then [LF] # split_lines cs
      else (case split_lines cs of [] \<Rightarrow> [[c]] | l # ls \<Rightarrow> (c # l) # ls))"

definition read_lines :: "string \<Rightarrow> string list" where
  "read_lines c = split_lines (translate_newlines c)"

text \<open>\<open>line.rstrip("\n")\<close>: every trailing newline goes.\<close>

definition rstrip_nl :: "string \<Rightarrow> string" where
  "rstrip_nl l = rev (dropWhile (\<lambda>c. c = LF) (rev l))"

text \<open>\<open>str.lower\<close> on ASCII text.\<close>

definition lower_char :: "char \<Rightarrow> char" where
  "lower_char c =
     (let n = (of_char c :: nat) in if 65 \<le> n \<and> n \<le> 90 then char_of (n + 32) else c)"

definition lower :: "string \<Rightarrow> string" where
  "lower l = map lower_char l"

text \<open>\<open>needle in hay\<close> on strings: \<open>needle\<close> starts at some position of \<open>hay\<close>.\<close>

fun contains :: "string \<Rightarrow> string \<Rightarrow> bool" where
  "contains needle [] = (needle = [])"
| "contains needle (c # cs) = (prefix needle (c # cs) \<or> contains needle cs)"

subsection \<open>The file system calls the manager makes\<close>

text \<open>\<open>stat().st_size\<close> of a regular file.\<close>

definition st_size :: "regfile \<Rightarrow> nat" where
  "st_size f = length (content f)"

definition new_file :: "string \<Rightarrow> timestamp \<Rightarrow> regfile" where
  "new_file c t = \<lparr>content = c, st_ctime = t, st_mtime = t\<rparr>"

text \<open>
  Opening for writing (\<open>open("w")\<close>, also inside \<open>write_text\<close>) creates the file or
  truncates it at once, before anything is written; on a directory it raises.
\<close>

definition open_w :: "path \<Rightarrow> timestamp \<Rightarrow> mgr_state \<Rightarrow> error + mgr_state" where
  "open_w p t s =
     (case node_at s p of
        Some Dir \<Rightarrow> Inl IOFailure
      | _ \<Rightarrow> if p \<noteq> [] \<and> butlast p = data_dir s
             then Inr (s\<lparr>disk := AList.update (last p) (File (new_file [] t)) (disk s)\<rparr>)
             else Inl IOFailure)"

text \<open>Opening for appending (\<open>open("a")\<close>) leaves an existing file as it is.\<close>

definition open_a :: "path \<Rightarrow> timestamp \<Rightarrow> mgr_state \<Rightarrow> error + mgr_state" where
  "open_a p t s =
     (case node_at s p of
        Some Dir \<Rightarrow> Inl IOFailure
      | Some (File f) \<Rightarrow> Inr s
      | None \<Rightarrow> if p \<noteq> [] \<and> butlast p = data_dir s
                then Inr (s\<lparr>disk := AList.update (last p) (File (new_file [] t)) (disk s)\<rparr>)
                else Inl IOFailure)"

text \<open>\<open>fh.write(data)\<close> on a file open for writing or appending: the data goes to the end.\<close>

definition write_data :: "path \<Rightarrow> string \<Rightarrow> timestamp \<Rightarrow> mgr_state \<Rightarrow> mgr_state" where
  "write_data p d t s =
     (case node_at s p of
        Some (File f) \<Rightarrow>
          if d = [] then s
          else s\<lparr>disk := AList.update (last p) (File (new_file (content f @ d) t)) (disk s)\<rparr>
      | _ \<Rightarrow> s)"

text \<open>\<open>src.replace(dst)\<close>, that is \<open>rename(2)\<close>, of a regular file inside the directory.\<close>

definition replace_path :: "path \<Rightarrow> path \<Rightarrow> mgr_state \<Rightarrow> (error + unit) \<times> mgr_state" where
  "replace_path src dst s =
     (case node_at s src of
        None \<Rightarrow> (Inl NotFound, s)
      | Some Dir \<Rightarrow> (Inl IOFailure, s)
      | Some (File f) \<Rightarrow>
          (case node_at s dst of
             Some Dir \<Rightarrow> (Inl IOFailure, s)
           | _ \<Rightarrow> if dst \<noteq> [] \<and> butlast dst = data_dir s
                  then (Inr (), s\<lparr>disk := AList.update (last dst) (File f)
                                           (AList.delete (last src) (disk s))\<rparr>)
                  else (Inl IOFailure, s)))"

text \<open>\<open>path.unlink()\<close>.\<close>

definition unlink :: "path \<Rightarrow> mgr_state \<Rightarrow> error + mgr_state" where
  "unlink p s =
     (case node_at s p of
        None \<Rightarrow> Inl NotFound
      | Some Dir \<Rightarrow> Inl IOFailure
      | Some (File f) \<Rightarrow> Inr (s\<lparr>disk := AList.delete (last p) (disk s)\<rparr>))"

text \<open>
  \<open>sorted(self.data_dir.iterdir())\<close>, kept to \<open>p.is_file() and p.name != INDEX_FILENAME\<close>:
  the regular files other than the index, by ascending name.
\<close>

definition regular_files :: "(string \<times> node) list \<Rightarrow> (string \<times> regfile) list" where
  "regular_files es = concat (map (\<lambda>(n, nd). case nd of Dir \<Rightarrow> [] | File f \<Rightarrow> [(n, f)]) es)"

definition not_index :: "string \<times> regfile \<Rightarrow> bool" where
  "not_index e = (fst e \<noteq> INDEX_FILENAME)"

definition documents :: "mgr_state \<Rightarrow> (string \<times> regfile) list" where
  "documents s = filter not_index (regular_files (sort_key fst (disk s)))"

subsection \<open>Index persistence\<close>

definition index_path :: "mgr_state \<Rightarrow> path" where
  "index_path s = data_dir s @ [INDEX_FILENAME]"

text \<open>
  \<open>_write_index\<close>: the whole index is dumped to \<open>index.tmp\<close>, which is then renamed
  over \<open>index.json\<close>.
\<close>

definition write_index ::
  "dumper \<Rightarrow> timestamp \<Rightarrow> mgr_state \<Rightarrow> (error + unit) \<times> mgr_state"
where
  "write_index dump t s =
     (let tmp = data_dir s @ [INDEX_TMPNAME]
      in case open_w tmp t s of
           Inl e \<Rightarrow> (Inl e, s)
         | Inr s1 \<Rightarrow> replace_path tmp (index_path s) (write_data tmp (dump (index s)) t s1))"

text \<open>The \<open>FileMeta\<close> that \<open>_rebuild_index\<close> makes from \<open>p.stat()\<close>.\<close>

definition meta_of_stat :: "string \<times> regfile \<Rightarrow> FileMeta" where
  "meta_of_stat e =
     \<lparr>filename = fst e, created_at = st_ctime (snd e), last_modified = st_mtime (snd e),
      size_bytes = st_size (snd e), tags = []\<rparr>"

definition rebuild_index ::
  "dumper \<Rightarrow> timestamp \<Rightarrow> mgr_state \<Rightarrow> (error + unit) \<times> mgr_state"
where
  "rebuild_index dump t s =
     write_index dump t
       (s\<lparr>index := foldl (\<lambda>ix e. AList.update (fst e) (meta_of_stat e) ix) [] (documents s)\<rparr>)"

text \<open>
  \<open>__init__\<close> with \<open>_load_index\<close>, on a directory that exists (\<open>mkdir\<close> with
  \<open>exist_ok\<close>). \<open>load\<close> stands for \<open>json.load\<close> followed by \<open>FileMeta(**meta)\<close> on every
  item, \<open>None\<close> when either raises; an index file that cannot be opened or loaded leads
  to a rebuild.
\<close>

definition init ::
  "dumper \<Rightarrow> (string \<Rightarrow> (string \<times> FileMeta) list option)
   \<Rightarrow> path \<Rightarrow> (string \<times> node) list \<Rightarrow> timestamp \<Rightarrow> (error + unit) \<times> mgr_state"
where
  "init dump load d dsk t =
     (let s = \<lparr>data_dir = d, index = [], disk = dsk\<rparr>
      in case node_at s (index_path s) of
           Some (File f) \<Rightarrow>
             (case load (content f) of
                Some ix \<Rightarrow> (Inr (), s\<lparr>index := ix\<rparr>)
              | None \<Rightarrow> rebuild_index dump t s)
         | _ \<Rightarrow> rebuild_index dump t s)"

text \<open>
  \<open>_update_meta_for\<close>. An instance of the dataclass \<open>FileMeta\<close> is always true, so
  \<open>not meta\<close> holds exactly when the index has no entry. The manager calls it after it
  wrote to \<open>path\<close>, so on a regular file; the size \<open>stat\<close> gives for a directory depends
  on the file system (\<open>dir_size\<close>).
\<close>

definition dir_size :: nat where
  "dir_size = 4096"

definition update_meta_for ::
  "dumper \<Rightarrow> path \<Rightarrow> timestamp \<Rightarrow> timestamp \<Rightarrow> mgr_state
   \<Rightarrow> (error + unit) \<times> mgr_state"
where
  "update_meta_for dump p t now s =
     (case node_at s p of
        None \<Rightarrow> (Inl NotFound, s)
      | Some nd \<Rightarrow>
          (let sz = (case nd of Dir \<Rightarrow> dir_size | File f \<Rightarrow> st_size f);
               meta =
                 (case map_of (index s) (path_name p) of
                    None \<Rightarrow> \<lparr>filename = path_name p, created_at = now, last_modified = now,
                              size_bytes = sz, tags = []\<rparr>
                  | Some m \<Rightarrow> m\<lparr>last_modified := now, size_bytes := sz\<rparr>)
           in write_index dump t (s\<lparr>index := AList.update (path_name p) meta (index s)\<rparr>)))"

subsection \<open>Public API\<close>

definition list_files ::
  "dumper \<Rightarrow> timestamp \<Rightarrow> mgr_state
   \<Rightarrow> (error + FileMeta list) \<times> mgr_state"
where
  "list_files dump t s =
     (case rebuild_index dump t s of
        (Inl e, s') \<Rightarrow> (Inl e, s')
      | (Inr u, s') \<Rightarrow> (Inr (map snd (index s')), s'))"

definition files_count :: "mgr_state \<Rightarrow> nat" where
  "files_count s = length (filter not_index (regular_files (disk s)))"

definition create_file ::
  "dumper \<Rightarrow> string \<Rightarrow> bool \<Rightarrow> timestamp \<Rightarrow> timestamp \<Rightarrow> mgr_state
   \<Rightarrow> (error + unit) \<times> mgr_state"
where
  "create_file dump name overwrite t now s =
     (if MAX_FILES \<le> files_count s then (Inl CollectionFull, s)
      else case file_path s name of
        Inl e \<Rightarrow> (Inl e, s)
      | Inr p \<Rightarrow>
          if node_at s p \<noteq> None \<and> \<not> overwrite then (Inl AlreadyExists, s)
          else (case open_w p t s of
                  Inl e \<Rightarrow> (Inl e, s)
                | Inr s1 \<Rightarrow> update_meta_for dump p t now (write_data p [] t s1)))"

definition show_file :: "string \<Rightarrow> mgr_state \<Rightarrow> error + string list" where
  "show_file name s =
     (case file_path s name of
        Inl e \<Rightarrow> Inl e
      | Inr p \<Rightarrow>
          (case node_at s p of
             None \<Rightarrow> Inl NotFound
           | Some Dir \<Rightarrow> Inl IOFailure
           | Some (File f) \<Rightarrow> Inr (map rstrip_nl (read_lines (content f)))))"

definition add_lines ::
  "dumper \<Rightarrow> string \<Rightarrow> string list \<Rightarrow> timestamp \<Rightarrow> timestamp
   \<Rightarrow> mgr_state \<Rightarrow> (error + unit) \<times> mgr_state"
where
  "add_lines dump name lines t now s =
     (case file_path s name of
        Inl e \<Rightarrow> (Inl e, s)
      | Inr p \<Rightarrow>
          if node_at s p = None then (Inl NotFound, s)
          else (case open_a p t s of
                  Inl e \<Rightarrow> (Inl e, s)
                | Inr s1 \<Rightarrow>
                    update_meta_for dump p t now
                      (foldl (\<lambda>s' line. write_data p (rstrip_nl line @ [LF]) t s') s1 lines)))"

text \<open>
  \<open>remove_file\<close> deletes the file at the sanitized path and then looks the index up
  under \<open>name\<close>, the argument as the caller gave it.
\<close>

definition remove_file ::
  "dumper \<Rightarrow> string \<Rightarrow> timestamp \<Rightarrow> mgr_state
   \<Rightarrow> (error + unit) \<times> mgr_state"
where
  "remove_file dump name t s =
     (case file_path s name of
        Inl e \<Rightarrow> (Inl e, s)
      | Inr p \<Rightarrow>
          if node_at s p = None then (Inl NotFound, s)
          else (case unlink p s of
                  Inl e \<Rightarrow> (Inl e, s)
                | Inr s1 \<Rightarrow>
                    if name \<in> set (map fst (index s1))
                    then write_index dump t (s1\<lparr>index := AList.delete name (index s1)\<rparr>)
                    else (Inr (), s1)))"

text \<open>
  \<open>remove_line\<close>. The rewrite is \<open>path.open("w")\<close>, which truncates the file, followed
  by \<open>fh.writelines(lines)\<close>.
\<close>

definition remove_line ::
  "dumper \<Rightarrow> string \<Rightarrow> int \<Rightarrow> timestamp \<Rightarrow> timestamp \<Rightarrow> mgr_state
   \<Rightarrow> (error + string) \<times> mgr_state"
where
  "remove_line dump name line_no t now s =
     (if line_no < 1 then (Inl InvalidArgument, s)
      else case file_path s name of
        Inl e \<Rightarrow> (Inl e, s)
      | Inr p \<Rightarrow>
          (case node_at s p of
             None \<Rightarrow> (Inl NotFound, s)
           | Some Dir \<Rightarrow> (Inl IOFailure, s)
           | Some (File f) \<Rightarrow>
               (let lines = read_lines (content f)
                in if line_no > int (length lines) then (Inl OutOfRange, s)
                   else
                     (let removed = lines ! nat (line_no - 1);
                          rest = take (nat (line_no - 1)) lines @ drop (nat line_no) lines
                      in case open_w p t s of
                           Inl e \<Rightarrow> (Inl e, s)
                         | Inr s1 \<Rightarrow>
                             (case update_meta_for dump p t now (write_data p (concat rest) t s1) of
                                (Inl e, s') \<Rightarrow> (Inl e, s')
                              | (Inr u, s') \<Rightarrow> (Inr (rstrip_nl removed), s'))))))"

text \<open>
  The first part of \<open>remove_line\<close>, up to and including \<open>path.open("w")\<close>: it returns
  the path, the lines still to be written and the removed line, and the state in which
  \<open>fh.writelines(lines)\<close> starts. This is the directory as another reader sees it
  while the rewrite is under way, and as it stays when \<open>writelines\<close> raises (the device
  is full, say) or the process dies there.
\<close>

definition remove_line_open ::
  "string \<Rightarrow> int \<Rightarrow> timestamp \<Rightarrow> mgr_state
   \<Rightarrow> (error + path \<times> string list \<times> string) \<times> mgr_state"
where
  "remove_line_open name line_no t s =
     (if line_no < 1 then (Inl InvalidArgument, s)
      else case file_path s name of
        Inl e \<Rightarrow> (Inl e, s)
      | Inr p \<Rightarrow>
          (case node_at s p of
             None \<Rightarrow> (Inl NotFound, s)
           | Some Dir \<Rightarrow> (Inl IOFailure, s)
           | Some (File f) \<Rightarrow>
               (let lines = read_lines (content f)
                in if line_no > int (length lines) then (Inl OutOfRange, s)
                   else
                     (let removed = lines ! nat (line_no - 1);
                          rest = take (nat (line_no - 1)) lines @ drop (nat line_no) lines
                      in case open_w p t s of
                           Inl e \<Rightarrow> (Inl e, s)
                         | Inr s1 \<Rightarrow> (Inr (p, rest, removed), s1)))))"

text \<open>
  \<open>find_text\<close>: the lines of one file that match, numbered from 1, and the scan over
  the documents.
\<close>

definition matches_in ::
  "string \<Rightarrow> bool \<Rightarrow> string \<times> regfile \<Rightarrow> (string \<times> nat \<times> string) list" where
  "matches_in text ignore_case e =
     (let needle = (if ignore_case then lower text else text);
          lines = read_lines (content (snd e))
      in map (\<lambda>(i, line). (fst e, i, rstrip_nl line))
           (filter (\<lambda>(i, line). contains needle (if ignore_case then lower line else line))
              (zip [1 ..< Suc (length lines)] lines)))"

definition find_text :: "string \<Rightarrow> bool \<Rightarrow> mgr_state \<Rightarrow> (string \<times> nat \<times> string) list" where
  "find_text text ignore_case s = concat (map (matches_in text ignore_case) (documents s))"

definition get_meta :: "string \<Rightarrow> mgr_state \<Rightarrow> error + FileMeta option" where
  "get_meta name s =
     (case sanitize_filename name of
        Inl e \<Rightarrow> Inl e
      | Inr n \<Rightarrow> Inr (map_of (index s) n))"

text \<open>
  \<open>add_tag\<close> and \<open>remove_tag\<close> change the \<open>tags\<close> list of the \<open>FileMeta\<close> object that
  \<open>get_meta\<close> found, in place. The index holds that object under the sanitized name,
  which is \<open>basename name\<close> whenever \<open>get_meta\<close> does not raise, and under no other key:
  every entry of the index is an object of its own.
\<close>

definition add_tag ::
  "dumper \<Rightarrow> string \<Rightarrow> string \<Rightarrow> timestamp \<Rightarrow> mgr_state
   \<Rightarrow> (error + unit) \<times> mgr_state"
where
  "add_tag dump name tag t s =
     (case get_meta name s of
        Inl e \<Rightarrow> (Inl e, s)
      | Inr None \<Rightarrow> (Inl NotFound, s)
      | Inr (Some meta) \<Rightarrow>
          if tag \<notin> set (tags meta)
          then write_index dump t
                 (s\<lparr>index := AList.update (basename name) (meta\<lparr>tags := tags meta @ [tag]\<rparr>)
                                (index s)\<rparr>)
          else (Inr (), s))"

definition remove_tag ::
  "dumper \<Rightarrow> string \<Rightarrow> string \<Rightarrow> timestamp \<Rightarrow> mgr_state
   \<Rightarrow> (error + unit) \<times> mgr_state"
where
  "remove_tag dump name tag t s =
     (case get_meta name s of
        Inl e \<Rightarrow> (Inl e, s)
      | Inr None \<Rightarrow> (Inl NotFound, s)
      | Inr (Some meta) \<Rightarrow>
          if tag \<in> set (tags meta)
          then write_index dump t
                 (s\<lparr>index := AList.update (basename name) (meta\<lparr>tags := remove1 tag (tags meta)\<rparr>)
                                (index s)\<rparr>)
          else (Inr (), s))"

subsection \<open>Example states\<close>

text \<open>
  A small serialisation standing for \<open>json.dump\<close>, a loader that rejects everything,
  and the states of the repository's own test (\<open>tests/test_manager.py\<close>): a manager
  over an empty directory, then \<open>a.txt\<close> created, then three lines added.
\<close>

definition example_dump :: dumper where
  "example_dump ix =
     concat (map (\<lambda>(k, m). k @ '':'' @ concat (map (\<lambda>g. g @ '','') (tags m)) @ '';'') ix)"

definition example_dir :: path where
  "example_dir = [''srv'', ''collection_data'']"

definition empty_mgr :: mgr_state where
  "empty_mgr = snd (init example_dump (\<lambda>c. None) example_dir [] 0)"

definition one_doc :: mgr_state where
  "one_doc = snd (create_file example_dump ''a.txt'' False 1 1 empty_mgr)"

definition three_lines :: mgr_state where
  "three_lines =
     snd (add_lines example_dump ''a.txt'' [''line one'', ''another line'', ''final''] 2 2 one_doc)"

text \<open>
  The directory of \<open>one_doc\<close> after somebody copied a file \<open>b.txt\<close> into it, behind
  the manager's back.
\<close>

definition with_untracked :: mgr_state where
  "with_untracked =
     one_doc\<lparr>disk := AList.update ''b.txt'' (File (new_file ''hello'' 5)) (disk one_doc)\<rparr>"

text \<open>
  \<open>a.txt\<close> created, tagged and then extended; the file system stamps the write at
  instant 3 and \<open>datetime.utcnow()\<close> then returns instant 4.
\<close>

definition tagged_doc :: mgr_state where
  "tagged_doc =
     snd (add_lines example_dump ''a.txt'' [''hello''] 3 4
            (snd (add_tag example_dump ''a.txt'' ''important'' 2 one_doc)))"

text \<open>
  The invariant of the index: its keys are distinct and are exactly the names of the
  regular files in the directory other than the index file.
\<close>

definition index_matches_disk :: "mgr_state \<Rightarrow> bool" where
  "index_matches_disk s =
     (distinct (map fst (index s)) \<and> set (map fst (index s)) = set (map fst (documents s)))"

text \<open>
  Two documents to search. The dump in \<open>index.json\<close> holds the name \<open>error.log\<close>, so
  the index file contains the word too.
\<close>

definition search_mgr :: mgr_state where
  "search_mgr =
     snd (add_lines example_dump ''error.log'' [''all good'', ''an Error here''] 4 4
       (snd (create_file example_dump ''error.log'' False 3 3
         (snd (add_lines example_dump ''b.txt''
                 [''error occurred'', ''fine'', ''error and ERROR again''] 2 2
           (snd (create_file example_dump ''b.txt'' False 1 1 empty_mgr)))))))"

text \<open>
  A directory that holds \<open>index.json\<close>, a subdirectory \<open>backup\<close> and \<open>n\<close> empty
  documents \<open>a\<close>, \<open>aa\<close>, \<open>aaa\<close>, ..., and managers over such a directory with 100 and
  with 99 documents (their index, loaded from \<open>index.json\<close>, is still empty).
\<close>

definition crowded_disk :: "nat \<Rightarrow> (string \<times> node) list" where
  "crowded_disk n =
     (INDEX_FILENAME, File (new_file [] 0)) # (''backup'', Dir)
       # map (\<lambda>i. (replicate (Suc i) (CHR ''a''), File (new_file [] 0))) [0 ..< n]"

definition full_mgr :: mgr_state where
  "full_mgr = \<lparr>data_dir = example_dir, index = [], disk = crowded_disk 100\<rparr>"

definition almost_full_mgr :: mgr_state where
  "almost_full_mgr = \<lparr>data_dir = example_dir, index = [], disk = crowded_disk 99\<rparr>"

subsection \<open>What a method leaves alone\<close>

text \<open>
  The state \<open>s'\<close> has the collection directory of \<open>s\<close>, and its entries other than
  \<open>b\<close>, \<open>index.tmp\<close> and \<open>index.json\<close> are those of \<open>s\<close>.
\<close>

definition untouched_except :: "string \<Rightarrow> mgr_state \<Rightarrow> mgr_state \<Rightarrow> bool" where
  "untouched_except b s s' =
     (data_dir s' = data_dir s
      \<and> (\<forall>k. k \<noteq> b \<and> k \<noteq> INDEX_TMPNAME \<and> k \<noteq> INDEX_FILENAME \<longrightarrow>
             map_of (disk s') k = map_of (disk s) k))"

section \<open>Properties\<close>

subsection \<open>Paths inside the collection directory\<close>

lemma node_at_child_of:
  "data_dir s = d \<Longrightarrow> n \<noteq> ''..'' \<Longrightarrow> node_at s (d @ [n]) = map_of (disk s) n"
  by (auto simp add: node_at_def)

lemma node_at_child [simp]:
  "n \<noteq> ''..'' \<Longrightarrow> node_at s (data_dir s @ [n]) = map_of (disk s) n"
  by (simp add: node_at_def)

lemma node_at_self [simp]: "node_at s (data_dir s) = Some Dir"
  by (simp add: node_at_def)

lemma node_at_parent [simp]: "node_at s (data_dir s @ [''..'']) = Some Dir"
  by (simp add: node_at_def)

lemma node_at_joinpath:
  "node_at s (joinpath (data_dir s) n) =
     (if n = ''.'' \<or> n = ''..'' then Some Dir else map_of (disk s) n)"
  by (simp add: joinpath_def)

lemma sanitize_error: "sanitize_filename name = Inl e \<Longrightarrow> e = InvalidName"
  by (auto simp: sanitize_filename_def Let_def split: if_splits)

lemma sanitize_basename: "sanitize_filename name = Inr b \<Longrightarrow> b = basename name"
  by (auto simp: sanitize_filename_def Let_def split: if_splits)

lemma sanitize_not_index: "sanitize_filename name = Inr b \<Longrightarrow> b \<noteq> INDEX_FILENAME"
  by (auto simp: sanitize_filename_def Let_def split: if_splits)

lemma normpath_snoc: "normpath (p @ [c]) = norm_step (normpath p) c"
  by (simp add: normpath_def)

lemma not_strict_prefix_butlast: "\<not> strict_prefix xs (butlast xs)"
proof
  assume "strict_prefix xs (butlast xs)"
  then have "length xs < length (butlast xs)"
    by (rule prefix_length_less)
  then show False by simp
qed

subsection \<open>The file system calls on a child of the collection directory\<close>

lemma reserved_names [simp]:
  "INDEX_TMPNAME \<noteq> ''..''" "INDEX_FILENAME \<noteq> ''..''"
  "INDEX_TMPNAME \<noteq> INDEX_FILENAME" "INDEX_FILENAME \<noteq> INDEX_TMPNAME"
  by (simp_all add: INDEX_TMPNAME_def INDEX_FILENAME_def)

lemma update_update_same: "AList.update k v (AList.update k w al) = AList.update k v al"
  by (induction al) auto

lemma open_w_child:
  "data_dir s = d \<Longrightarrow> n \<noteq> ''..'' \<Longrightarrow>
   open_w (d @ [n]) t s =
     (if map_of (disk s) n = Some Dir then Inl IOFailure
      else Inr (s\<lparr>disk := AList.update n (File (new_file [] t)) (disk s)\<rparr>))"
  by (auto simp: open_w_def node_at_child_of split: option.splits node.splits)

lemma write_data_child:
  "data_dir s = d \<Longrightarrow> n \<noteq> ''..'' \<Longrightarrow>
   write_data (d @ [n]) x t s =
     (case map_of (disk s) n of
        Some (File f) \<Rightarrow>
          if x = [] then s
          else s\<lparr>disk := AList.update n (File (new_file (content f @ x) t)) (disk s)\<rparr>
      | _ \<Rightarrow> s)"
  by (auto simp: write_data_def node_at_child_of split: option.splits node.splits)

text \<open>
  \<open>_write_index\<close> in closed form: it fails when \<open>index.tmp\<close> or \<open>index.json\<close> is a
  directory, and otherwise leaves the dump in \<open>index.json\<close> and no \<open>index.tmp\<close>.
\<close>

lemma write_index_eq:
  "write_index dump t s =
     (if map_of (disk s) INDEX_TMPNAME = Some Dir then (Inl IOFailure, s)
      else if map_of (disk s) INDEX_FILENAME = Some Dir
      then (Inl IOFailure,
            s\<lparr>disk := AList.update INDEX_TMPNAME (File (new_file (dump (index s)) t)) (disk s)\<rparr>)
      else (Inr (),
            s\<lparr>disk := AList.update INDEX_FILENAME (File (new_file (dump (index s)) t))
                       (AList.delete INDEX_TMPNAME (disk s))\<rparr>))"
  by (auto simp add: write_index_def open_w_child write_data_child node_at_child_of
        replace_path_def index_path_def Let_def update_conv' new_file_def delete_update_same
        update_update_same
      split: option.splits node.splits)

lemma open_w_error: "open_w p t s = Inl e \<Longrightarrow> e = IOFailure"
  by (auto simp: open_w_def split: option.splits node.splits if_splits)

lemma open_a_error: "open_a p t s = Inl e \<Longrightarrow> e = IOFailure"
  by (auto simp: open_a_def split: option.splits node.splits if_splits)

lemma write_index_error: "fst (write_index dump t s) = Inl e \<Longrightarrow> e = IOFailure"
  by (auto simp: write_index_eq split: if_splits)

lemma write_index_index: "index (snd (write_index dump t s)) = index s"
  by (simp add: write_index_eq)

lemma update_meta_for_error:
  "fst (update_meta_for dump p t now s) = Inl e \<Longrightarrow> e = IOFailure \<or> e = NotFound"
  by (auto simp: update_meta_for_def Let_def split: option.splits dest: write_index_error)

lemma file_path_error: "file_path s name = Inl e \<Longrightarrow> e = InvalidName"
  by (auto simp: file_path_def split: sum.splits dest: sanitize_error)

subsection \<open>Sanitization\<close>

lemma basename_no_slash: "CHR ''/'' \<notin> set (basename name)"
  by (auto simp: basename_def dest: set_takeWhileD)

lemma basename_plain: "CHR ''/'' \<notin> set b \<Longrightarrow> basename b = b"
proof -
  assume a: "CHR ''/'' \<notin> set b"
  have "takeWhile (\<lambda>c. c \<noteq> CHR ''/'') (rev b) = rev b"
    by (rule takeWhile_eq_all_conv [THEN iffD2]) (use a in auto)
  then show ?thesis by (simp only: basename_def rev_rev_ident)
qed

lemma basename_idem: "basename (basename name) = basename name"
  by (rule basename_plain) (rule basename_no_slash)

lemma sanitize_idem:
  "sanitize_filename name = Inr b \<Longrightarrow> CHR ''/'' \<notin> set b \<and> sanitize_filename b = Inr b"
proof -
  assume a: "sanitize_filename name = Inr b"
  then have b: "b = basename name" by (rule sanitize_basename)
  from a have "sanitize_filename (basename name) = Inr (basename name)"
    by (auto simp: sanitize_filename_def Let_def basename_idem split: if_splits)
  with b basename_no_slash [of name] show ?thesis by simp
qed

lemma untouched_refl: "untouched_except b s s"
  by (simp add: untouched_except_def)

lemma untouched_trans:
  "untouched_except b s s1 \<Longrightarrow> untouched_except b s1 s2 \<Longrightarrow> untouched_except b s s2"
  by (simp add: untouched_except_def)

lemma untouched_index: "untouched_except b s s1 \<Longrightarrow> untouched_except b s (s1\<lparr>index := ix\<rparr>)"
  by (simp add: untouched_except_def)

lemma open_w_frame:
  "data_dir s = dd \<Longrightarrow> open_w (joinpath dd b) t s = Inr s1 \<Longrightarrow> untouched_except b s s1"
  by (auto simp: open_w_def joinpath_def node_at_def untouched_except_def update_conv'
           split: option.splits node.splits if_splits)

lemma open_a_frame:
  "data_dir s = dd \<Longrightarrow> open_a (joinpath dd b) t s = Inr s1 \<Longrightarrow> untouched_except b s s1"
  by (auto simp: open_a_def joinpath_def node_at_def untouched_except_def update_conv'
           split: option.splits node.splits if_splits)

lemma write_data_frame:
  "data_dir s = dd \<Longrightarrow> untouched_except b s (write_data (joinpath dd b) x t s)"
  by (auto simp: write_data_def joinpath_def node_at_def untouched_except_def update_conv'
           split: option.splits node.splits if_splits)

lemma unlink_frame:
  "data_dir s = dd \<Longrightarrow> unlink (joinpath dd b) s = Inr s1 \<Longrightarrow> untouched_except b s s1"
  by (auto simp: unlink_def joinpath_def node_at_def untouched_except_def delete_conv'
           split: option.splits node.splits if_splits)

lemma write_index_frame: "untouched_except b s (snd (write_index dump t s))"
  by (simp add: write_index_eq untouched_except_def update_conv' delete_conv')

lemma update_meta_for_frame: "untouched_except b s (snd (update_meta_for dump p t now s))"
proof (cases "node_at s p")
  case None
  then show ?thesis by (simp add: update_meta_for_def untouched_refl)
next
  case (Some nd)
  have "untouched_except b s (snd (write_index dump t (s\<lparr>index := ix\<rparr>)))" for ix
    using untouched_trans [OF untouched_index [OF untouched_refl] write_index_frame] .
  with Some show ?thesis by (simp add: update_meta_for_def Let_def)
qed

lemma foldl_write_data_frame:
  "data_dir s = dd \<Longrightarrow>
   untouched_except b s (foldl (\<lambda>s' l. write_data (joinpath dd b) (g l) t s') s ls)"
proof (induction ls arbitrary: s)
  case Nil
  then show ?case by (simp add: untouched_refl)
next
  case (Cons l ls)
  let ?s1 = "write_data (joinpath dd b) (g l) t s"
  have f1: "untouched_except b s ?s1" using Cons.prems by (rule write_data_frame)
  then have "data_dir ?s1 = dd" using Cons.prems by (simp add: untouched_except_def)
  from Cons.IH [OF this] f1 show ?case
    by (simp add: untouched_trans)
qed

lemma file_path_sanitized:
  "sanitize_filename name = Inr b \<Longrightarrow> file_path s name = Inr (joinpath (data_dir s) b)"
  by (simp add: file_path_def)

lemma add_lines_frame:
  assumes "sanitize_filename name = Inr b"
  shows "untouched_except b s (snd (add_lines dump name ls t now s))"
proof -
  note fp = file_path_sanitized [OF assms, of s]
  show ?thesis
  proof (cases "open_a (joinpath (data_dir s) b) t s")
    case (Inl e)
    then show ?thesis by (simp add: add_lines_def fp untouched_refl)
  next
    case (Inr s1)
    have a: "untouched_except b s s1" using open_a_frame [OF refl Inr] .
    then have dd: "data_dir s1 = data_dir s" by (simp add: untouched_except_def)
    have "untouched_except b s1
            (foldl (\<lambda>s' line. write_data (joinpath (data_dir s) b) (rstrip_nl line @ [LF]) t s') s1 ls)"
      using dd by (rule foldl_write_data_frame)
    with a update_meta_for_frame Inr show ?thesis
      by (auto simp add: add_lines_def fp untouched_refl intro: untouched_trans)
  qed
qed

lemma create_file_frame:
  assumes "sanitize_filename name = Inr b"
  shows "untouched_except b s (snd (create_file dump name ow t now s))"
proof -
  note fp = file_path_sanitized [OF assms, of s]
  show ?thesis
  proof (cases "open_w (joinpath (data_dir s) b) t s")
    case (Inl e)
    then show ?thesis by (simp add: create_file_def fp untouched_refl)
  next
    case (Inr s1)
    have a: "untouched_except b s s1" using open_w_frame [OF refl Inr] .
    then have dd: "data_dir s1 = data_dir s" by (simp add: untouched_except_def)
    have "untouched_except b s1 (write_data (joinpath (data_dir s) b) [] t s1)"
      using dd by (rule write_data_frame)
    with a update_meta_for_frame Inr show ?thesis
      by (auto simp add: create_file_def fp untouched_refl intro: untouched_trans)
  qed
qed

lemma remove_file_frame:
  assumes "sanitize_filename name = Inr b"
  shows "untouched_except b s (snd (remove_file dump name t s))"
proof -
  note fp = file_path_sanitized [OF assms, of s]
  show ?thesis
  proof (cases "unlink (joinpath (data_dir s) b) s")
    case (Inl e)
    then show ?thesis by (simp add: remove_file_def fp untouched_refl)
  next
    case (Inr s1)
    have a: "untouched_except b s s1" using unlink_frame [OF refl Inr] .
    have "untouched_except b s1 (snd (write_index dump t (s1\<lparr>index := ix\<rparr>)))" for ix
      using untouched_trans [OF untouched_index [OF untouched_refl] write_index_frame] .
    with a Inr show ?thesis
      by (auto simp add: remove_file_def fp untouched_refl intro: untouched_trans)
  qed
qed

lemma remove_line_frame:
  assumes "sanitize_filename name = Inr b"
  shows "untouched_except b s (snd (remove_line dump name i t now s))"
proof -
  note fp = file_path_sanitized [OF assms, of s]
  have step: "untouched_except b s s'"
    if "open_w (joinpath (data_dir s) b) t s = Inr s1"
       "update_meta_for dump p t now (write_data (joinpath (data_dir s) b) x t s1) = (r, s')"
    for s1 x p r s'
  proof -
    have a: "untouched_except b s s1" using open_w_frame [OF refl that(1)] .
    then have dd: "data_dir s1 = data_dir s" by (simp add: untouched_except_def)
    have w: "untouched_except b s1 (write_data (joinpath (data_dir s) b) x t s1)"
      using dd by (rule write_data_frame)
    have "untouched_except b (write_data (joinpath (data_dir s) b) x t s1) s'"
      using update_meta_for_frame [of b "write_data (joinpath (data_dir s) b) x t s1" dump p t now]
      by (simp add: that(2))
    with a w show ?thesis by (blast intro: untouched_trans)
  qed
  show ?thesis
    by (auto simp: remove_line_def fp untouched_refl Let_def
             split: option.splits node.splits sum.splits prod.splits intro: step)
qed

lemma tag_frames:
  "untouched_except b s (snd (add_tag dump name tag t s))"
  "untouched_except b s (snd (remove_tag dump name tag t s))"
proof -
  have w: "untouched_except b s (snd (write_index dump t (s\<lparr>index := ix\<rparr>)))" for ix
    using untouched_trans [OF untouched_index [OF untouched_refl] write_index_frame] .
  show "untouched_except b s (snd (add_tag dump name tag t s))"
    by (auto simp: add_tag_def untouched_refl w split: sum.splits option.splits)
  show "untouched_except b s (snd (remove_tag dump name tag t s))"
    by (auto simp: remove_tag_def untouched_refl w split: sum.splits option.splits)
qed


lemma same_path: "sanitize_filename name = Inr b \<Longrightarrow> file_path s name = file_path s b"
  using sanitize_idem [of name b] by (simp add: file_path_def)

lemma remove_file_gone:
  assumes b: "sanitize_filename name = Inr b"
    and ok: "fst (remove_file dump name t s) = Inr ()"
  shows "map_of (disk (snd (remove_file dump name t s))) b = None"
proof -
  note fp = file_path_sanitized [OF b, of s]
  from ok obtain s1 where u: "unlink (joinpath (data_dir s) b) s = Inr s1"
    by (auto simp: remove_file_def fp split: if_splits sum.splits)
  then obtain f where f: "node_at s (joinpath (data_dir s) b) = Some (File f)"
      and s1: "s1 = s\<lparr>disk := AList.delete (last (joinpath (data_dir s) b)) (disk s)\<rparr>"
    by (auto simp: unlink_def split: option.splits node.splits)
  from f have nd: "b \<noteq> ''.''" "b \<noteq> ''..''"
    by (auto simp: node_at_joinpath split: if_splits)
  then have gone: "map_of (disk s1) b = None"
    by (simp add: s1 joinpath_def delete_conv')
  have w: "map_of (disk (snd (write_index dump t (s1\<lparr>index := ix\<rparr>)))) b = None"
    if "fst (write_index dump t (s1\<lparr>index := ix\<rparr>)) = Inr ()" for ix
    using that gone sanitize_not_index [OF b]
    by (auto simp: write_index_eq update_conv' delete_conv' split: if_splits)
  from ok u f show ?thesis
    by (auto simp: remove_file_def fp gone w split: if_splits)
qed

text \<open>
  C1 (as the spec states it, refuted). The name \<open>../../etc/passwd\<close> is not rejected:
  \<open>os.path.basename\<close> strips the directories and the rest, \<open>passwd\<close>, passes.
\<close>

theorem traversal_name_not_rejected:
  "sanitize_filename ''../../etc/passwd'' \<noteq> Inl InvalidName"
  by code_simp

text \<open>
  C1 (amended). Sanitizing \<open>../../etc/passwd\<close> strips the directory components and
  returns \<open>passwd\<close>; \<open>notes.txt\<close> is accepted as it is; the reserved name \<open>index.json\<close>
  is rejected with \<open>InvalidName\<close>. Sanitization runs before a path is made from the
  name.

  When sanitization fails, no path is made and the state stays as it was:
  \<open>show_file\<close>, \<open>get_meta\<close>, \<open>add_lines\<close>, \<open>remove_file\<close>, \<open>add_tag\<close> and \<open>remove_tag\<close>
  fail with \<open>InvalidName\<close>; \<open>remove_line\<close> fails with \<open>InvalidArgument\<close> when the line
  number is below 1 (that check comes first) and with \<open>InvalidName\<close> otherwise;
  \<open>create_file\<close> fails with \<open>CollectionFull\<close> when the size limit is reached (that
  check comes first) and with \<open>InvalidName\<close> otherwise.

  When sanitization succeeds with the name \<open>b\<close>: \<open>b\<close> has no slash and sanitizes to
  itself; the path is the collection directory joined with \<open>b\<close>, and \<open>show_file\<close>
  reads what is there; \<open>get_meta\<close> looks the index up under \<open>b\<close>; \<open>add_lines\<close>,
  \<open>remove_line\<close>, \<open>create_file\<close>, \<open>add_tag\<close> and \<open>remove_tag\<close> do what they do when
  called with \<open>b\<close> itself; a \<open>remove_file\<close> that returns normally leaves no entry \<open>b\<close>
  in the directory; and no method changes an entry of the directory other than \<open>b\<close>,
  \<open>index.tmp\<close> and \<open>index.json\<close>.
\<close>

theorem sanitize_examples_and_order:
  "sanitize_filename ''../../etc/passwd'' = Inr ''passwd''
   \<and> sanitize_filename ''notes.txt'' = Inr ''notes.txt''
   \<and> sanitize_filename ''index.json'' = Inl InvalidName
   \<and> (\<forall>e. sanitize_filename name = Inl e \<longrightarrow>
          e = InvalidName
          \<and> file_path s name = Inl InvalidName
          \<and> show_file name s = Inl InvalidName
          \<and> get_meta name s = Inl InvalidName
          \<and> add_lines dump name ls t now s = (Inl InvalidName, s)
          \<and> remove_file dump name t s = (Inl InvalidName, s)
          \<and> add_tag dump name tag t s = (Inl InvalidName, s)
          \<and> remove_tag dump name tag t s = (Inl InvalidName, s)
          \<and> remove_line dump name i t now s
              = (Inl (if i < 1 then InvalidArgument else InvalidName), s)
          \<and> create_file dump name ow t now s
              = (Inl (if MAX_FILES \<le> files_count s then CollectionFull else InvalidName), s))
   \<and> (\<forall>b. sanitize_filename name = Inr b \<longrightarrow>
          CHR ''/'' \<notin> set b
          \<and> sanitize_filename b = Inr b
          \<and> file_path s name = Inr (joinpath (data_dir s) b)
          \<and> show_file name s =
               (case node_at s (joinpath (data_dir s) b) of
                  None \<Rightarrow> Inl NotFound
                | Some Dir \<Rightarrow> Inl IOFailure
                | Some (File f) \<Rightarrow> Inr (map rstrip_nl (read_lines (content f))))
          \<and> get_meta name s = Inr (map_of (index s) b)
          \<and> add_lines dump name ls t now s = add_lines dump b ls t now s
          \<and> remove_line dump name i t now s = remove_line dump b i t now s
          \<and> create_file dump name ow t now s = create_file dump b ow t now s
          \<and> add_tag dump name tag t s = add_tag dump b tag t s
          \<and> remove_tag dump name tag t s = remove_tag dump b tag t s
          \<and> (fst (remove_file dump name t s) = Inr () \<longrightarrow>
                map_of (disk (snd (remove_file dump name t s))) b = None)
          \<and> untouched_except b s (snd (add_lines dump name ls t now s))
          \<and> untouched_except b s (snd (remove_line dump name i t now s))
          \<and> untouched_except b s (snd (create_file dump name ow t now s))
          \<and> untouched_except b s (snd (remove_file dump name t s))
          \<and> untouched_except b s (snd (add_tag dump name tag t s))
          \<and> untouched_except b s (snd (remove_tag dump name tag t s)))"
proof (intro conjI allI impI)
  show "sanitize_filename ''../../etc/passwd'' = Inr ''passwd''" by code_simp
  show "sanitize_filename ''notes.txt'' = Inr ''notes.txt''" by code_simp
  show "sanitize_filename ''index.json'' = Inl InvalidName" by code_simp
next
  fix e assume e: "sanitize_filename name = Inl e"
  then have inv: "sanitize_filename name = Inl InvalidName"
    using sanitize_error by blast
  show "e = InvalidName" using e by (rule sanitize_error)
  show fp: "file_path s name = Inl InvalidName" by (simp add: file_path_def inv)
  show "show_file name s = Inl InvalidName" by (simp add: show_file_def fp)
  show gm: "get_meta name s = Inl InvalidName" by (simp add: get_meta_def inv)
  show "add_lines dump name ls t now s = (Inl InvalidName, s)" by (simp add: add_lines_def fp)
  show "remove_file dump name t s = (Inl InvalidName, s)" by (simp add: remove_file_def fp)
  show "add_tag dump name tag t s = (Inl InvalidName, s)" by (simp add: add_tag_def gm)
  show "remove_tag dump name tag t s = (Inl InvalidName, s)" by (simp add: remove_tag_def gm)
  show "remove_line dump name i t now s
          = (Inl (if i < 1 then InvalidArgument else InvalidName), s)"
    by (simp add: remove_line_def fp)
  show "create_file dump name ow t now s
          = (Inl (if MAX_FILES \<le> files_count s then CollectionFull else InvalidName), s)"
    by (simp add: create_file_def fp)
next
  fix b assume b: "sanitize_filename name = Inr b"
  note idem = sanitize_idem [OF b]
  note sp = same_path [OF b]
  have bn: "basename name = b" "basename b = b"
    using sanitize_basename [OF b] idem by (simp_all add: basename_plain)
  have gm: "get_meta name s' = get_meta b s'" for s'
    using b idem by (simp add: get_meta_def)
  show "CHR ''/'' \<notin> set b" using idem by simp
  show "sanitize_filename b = Inr b" using idem by simp
  show fp: "file_path s name = Inr (joinpath (data_dir s) b)"
    using b by (rule file_path_sanitized)
  show "show_file name s =
          (case node_at s (joinpath (data_dir s) b) of
             None \<Rightarrow> Inl NotFound
           | Some Dir \<Rightarrow> Inl IOFailure
           | Some (File f) \<Rightarrow> Inr (map rstrip_nl (read_lines (content f))))"
    by (simp add: show_file_def fp)
  show "get_meta name s = Inr (map_of (index s) b)" using b by (simp add: get_meta_def)
  show "add_lines dump name ls t now s = add_lines dump b ls t now s"
    by (simp add: add_lines_def sp)
  show "remove_line dump name i t now s = remove_line dump b i t now s"
    by (simp add: remove_line_def sp)
  show "create_file dump name ow t now s = create_file dump b ow t now s"
    by (simp add: create_file_def sp)
  show "add_tag dump name tag t s = add_tag dump b tag t s"
    unfolding add_tag_def gm bn by (rule refl)
  show "remove_tag dump name tag t s = remove_tag dump b tag t s"
    unfolding remove_tag_def gm bn by (rule refl)
  show "map_of (disk (snd (remove_file dump name t s))) b = None"
    if "fst (remove_file dump name t s) = Inr ()"
    using b that by (rule remove_file_gone)
  show "untouched_except b s (snd (add_lines dump name ls t now s))"
    using b by (rule add_lines_frame)
  show "untouched_except b s (snd (remove_line dump name i t now s))"
    using b by (rule remove_line_frame)
  show "untouched_except b s (snd (create_file dump name ow t now s))"
    using b by (rule create_file_frame)
  show "untouched_except b s (snd (remove_file dump name t s))"
    using b by (rule remove_file_frame)
  show "untouched_except b s (snd (add_tag dump name tag t s))" by (rule tag_frames)
  show "untouched_except b s (snd (remove_tag dump name tag t s))" by (rule tag_frames)
qed


theorem sanitize_examples_and_order_witness:
  "sanitize_filename ''what?'' = Inl InvalidName
   \<and> show_file ''what?'' three_lines = Inl InvalidName
   \<and> add_lines example_dump ''what?'' [''x''] 3 3 three_lines = (Inl InvalidName, three_lines)
   \<and> remove_line example_dump ''what?'' 1 3 3 three_lines = (Inl InvalidName, three_lines)
   \<and> remove_line example_dump ''what?'' 0 3 3 three_lines = (Inl InvalidArgument, three_lines)
   \<and> create_file example_dump ''what?'' True 3 3 three_lines = (Inl InvalidName, three_lines)
   \<and> create_file example_dump ''what?'' True 3 3 full_mgr = (Inl CollectionFull, full_mgr)
   \<and> sanitize_filename ''sub/a.txt'' = Inr ''a.txt''
   \<and> file_path three_lines ''sub/a.txt'' = Inr (example_dir @ [''a.txt''])
   \<and> show_file ''sub/a.txt'' three_lines = Inr [''line one'', ''another line'', ''final'']
   \<and> add_lines example_dump ''sub/a.txt'' [''x''] 6 6 with_untracked
       = add_lines example_dump ''a.txt'' [''x''] 6 6 with_untracked
   \<and> map_of (disk (snd (add_lines example_dump ''sub/a.txt'' [''x''] 6 6 with_untracked))) ''b.txt''
       = Some (File (new_file ''hello'' 5))
   \<and> map_of (disk (snd (remove_file example_dump ''sub/a.txt'' 6 with_untracked))) ''a.txt'' = None"
proof -
  let ?f = "new_file (''line one'' @ [LF] @ ''another line'' @ [LF] @ ''final'' @ [LF]) 2"
  have bad: "sanitize_filename ''what?'' = Inl InvalidName" by code_simp
  have good: "sanitize_filename ''sub/a.txt'' = Inr ''a.txt''" by code_simp
  have room: "\<not> MAX_FILES \<le> files_count three_lines" by code_simp
  have full: "MAX_FILES \<le> files_count full_mgr" by code_simp
  have jp: "joinpath (data_dir three_lines) ''a.txt'' = example_dir @ [''a.txt'']" by code_simp
  have nd: "node_at three_lines (example_dir @ [''a.txt'']) = Some (File ?f)" by code_simp
  have rd: "map rstrip_nl (read_lines (content ?f)) = [''line one'', ''another line'', ''final'']"
    by code_simp
  have other: "map_of (disk with_untracked) ''b.txt'' = Some (File (new_file ''hello'' 5))"
    by code_simp
  have ne: "''b.txt'' \<noteq> ''a.txt''" "''b.txt'' \<noteq> INDEX_TMPNAME" "''b.txt'' \<noteq> INDEX_FILENAME"
    by (simp_all add: INDEX_TMPNAME_def INDEX_FILENAME_def)
  have rm: "fst (remove_file example_dump ''sub/a.txt'' 6 with_untracked) = Inr ()" by code_simp
  note inv1 = sanitize_examples_and_order
            [where s = three_lines and name = "''what?''" and dump = example_dump
               and ls = "[''x'']" and t = 3 and now = 3 and i = 1 and ow = True]
  note inv0 = sanitize_examples_and_order
            [where s = three_lines and name = "''what?''" and dump = example_dump
               and t = 3 and now = 3 and i = 0]
  note invf = sanitize_examples_and_order
            [where s = full_mgr and name = "''what?''" and dump = example_dump
               and t = 3 and now = 3 and ow = True]
  note ok3 = sanitize_examples_and_order
            [where s = three_lines and name = "''sub/a.txt''"]
  note oku = sanitize_examples_and_order
            [where s = with_untracked and name = "''sub/a.txt''" and dump = example_dump
               and ls = "[''x'']" and t = 6 and now = 6]
  have a: "show_file ''what?'' three_lines = Inl InvalidName"
    "add_lines example_dump ''what?'' [''x''] 3 3 three_lines = (Inl InvalidName, three_lines)"
    "remove_line example_dump ''what?'' 1 3 3 three_lines = (Inl InvalidName, three_lines)"
    "create_file example_dump ''what?'' True 3 3 three_lines = (Inl InvalidName, three_lines)"
    using inv1 bad room by simp_all
  have b: "remove_line example_dump ''what?'' 0 3 3 three_lines = (Inl InvalidArgument, three_lines)"
    using inv0 bad by simp
  have c: "create_file example_dump ''what?'' True 3 3 full_mgr = (Inl CollectionFull, full_mgr)"
    using invf bad full by simp
  have d: "file_path three_lines ''sub/a.txt'' = Inr (example_dir @ [''a.txt''])"
    "show_file ''sub/a.txt'' three_lines = Inr [''line one'', ''another line'', ''final'']"
    using ok3 good jp nd rd by simp_all
  have e: "add_lines example_dump ''sub/a.txt'' [''x''] 6 6 with_untracked
             = add_lines example_dump ''a.txt'' [''x''] 6 6 with_untracked"
    using oku good by simp
  have "untouched_except ''a.txt'' with_untracked
          (snd (add_lines example_dump ''sub/a.txt'' [''x''] 6 6 with_untracked))"
    using oku good by blast
  then have f: "map_of (disk (snd (add_lines example_dump ''sub/a.txt'' [''x''] 6 6 with_untracked)))
                  ''b.txt'' = Some (File (new_file ''hello'' 5))"
    using ne other by (simp add: untouched_except_def)
  have g: "map_of (disk (snd (remove_file example_dump ''sub/a.txt'' 6 with_untracked))) ''a.txt''
             = None"
    using oku good rm by simp
  from bad good a b c d e f g show ?thesis by simp
qed

subsection \<open>The names \<open>.\<close> and \<open>..\<close>\<close>

text \<open>
  C10. Sanitization accepts \<open>.\<close> and \<open>..\<close>. The path made from \<open>.\<close> is the collection
  directory itself and the path made from \<open>..\<close> is its parent: both exist, both are
  directories, and neither lies inside the collection directory.
\<close>

theorem dot_names_escape:
  "sanitize_filename ''.'' = Inr ''.''
   \<and> sanitize_filename ''..'' = Inr ''..''
   \<and> file_path s ''.'' = Inr (data_dir s)
   \<and> file_path s ''..'' = Inr (data_dir s @ [''..''])
   \<and> node_at s (data_dir s) = Some Dir
   \<and> node_at s (data_dir s @ [''..'']) = Some Dir
   \<and> \<not> inside_collection (data_dir s) (data_dir s)
   \<and> \<not> inside_collection (data_dir s) (data_dir s @ [''..''])"
proof -
  have dot: "sanitize_filename ''.'' = Inr ''.''" by code_simp
  have dotdot: "sanitize_filename ''..'' = Inr ''..''" by code_simp
  have "\<not> inside_collection (data_dir s) (data_dir s @ [''..''])"
    by (simp add: inside_collection_def normpath_snoc norm_step_def not_strict_prefix_butlast)
  moreover have "\<not> inside_collection (data_dir s) (data_dir s)"
    by (simp add: inside_collection_def)
  ultimately show ?thesis
    by (simp add: dot dotdot file_path_def joinpath_def)
qed

subsection \<open>Failures of \<open>remove_line\<close>\<close>

text \<open>
  C5. \<open>remove_line\<close> fails with \<open>InvalidArgument\<close> for every line number below 1
  (whatever the name), with \<open>NotFound\<close> when the line number is at least 1 and nothing
  exists at the document's path, and with \<open>OutOfRange\<close> when the document exists and
  the line number exceeds its number of lines. The checks come in this order, and in
  each of the three cases the whole state, the document's content included, is left
  as it was.
\<close>

theorem remove_line_failures:
  "(i < 1 \<longrightarrow> remove_line dump name i t now s = (Inl InvalidArgument, s))
   \<and> (1 \<le> i \<and> file_path s name = Inr p \<and> node_at s p = None \<longrightarrow>
        remove_line dump name i t now s = (Inl NotFound, s))
   \<and> (1 \<le> i \<and> file_path s name = Inr p \<and> node_at s p = Some (File f)
        \<and> int (length (read_lines (content f))) < i \<longrightarrow>
        remove_line dump name i t now s = (Inl OutOfRange, s))"
  by (simp add: remove_line_def)

theorem remove_line_failures_witness:
  "remove_line example_dump ''missing.txt'' 0 3 3 three_lines = (Inl InvalidArgument, three_lines)
   \<and> remove_line example_dump ''missing.txt'' 1 3 3 three_lines = (Inl NotFound, three_lines)
   \<and> show_file ''a.txt'' three_lines = Inr [''line one'', ''another line'', ''final'']
   \<and> remove_line example_dump ''a.txt'' 4 3 3 three_lines = (Inl OutOfRange, three_lines)"
proof -
  let ?f = "new_file (''line one'' @ [LF] @ ''another line'' @ [LF] @ ''final'' @ [LF]) 2"
  have p1: "file_path three_lines ''missing.txt'' = Inr (example_dir @ [''missing.txt''])"
    by code_simp
  have n1: "node_at three_lines (example_dir @ [''missing.txt'']) = None" by code_simp
  have p2: "file_path three_lines ''a.txt'' = Inr (example_dir @ [''a.txt''])" by code_simp
  have n2: "node_at three_lines (example_dir @ [''a.txt'']) = Some (File ?f)" by code_simp
  have l2: "int (length (read_lines (content ?f))) < 4" by code_simp
  have sh: "show_file ''a.txt'' three_lines = Inr [''line one'', ''another line'', ''final'']"
    by code_simp
  show ?thesis
    using remove_line_failures [of 0 example_dump "''missing.txt''" 3 3 three_lines]
          remove_line_failures [of 1 example_dump "''missing.txt''" 3 3 three_lines
                                  "example_dir @ [''missing.txt'']"]
          remove_line_failures [of 4 example_dump "''a.txt''" 3 3 three_lines
                                  "example_dir @ [''a.txt'']" ?f]
          p1 n1 p2 n2 l2 sh
    by simp
qed

subsection \<open>Tags\<close>

lemma get_meta_sanitized:
  "sanitize_filename name = Inr d \<Longrightarrow> get_meta name s = Inr (map_of (index s) d)"
  by (simp add: get_meta_def)

text \<open>
  C8. Let \<open>d\<close> be the sanitized name. \<open>add_tag\<close> and \<open>remove_tag\<close> fail with \<open>NotFound\<close>
  exactly when the index has no entry for \<open>d\<close>, whatever the directory holds. When
  there is an entry \<open>m\<close>: adding a tag a second time changes nothing; adding a tag that
  \<open>m\<close> has, or removing one that it has not, returns with the whole state, the
  directory included, as it was, so nothing is persisted; adding a new tag appends it,
  removing a present tag removes it, and when such a call returns normally
  \<open>index.json\<close> holds the dump of the new index.
\<close>

theorem tag_operations:
  assumes d: "sanitize_filename name = Inr d"
  shows
  "((fst (add_tag dump name tag t s) = Inl NotFound) = (map_of (index s) d = None))
   \<and> ((fst (remove_tag dump name tag t s) = Inl NotFound) = (map_of (index s) d = None))
   \<and> (\<forall>m. map_of (index s) d = Some m \<longrightarrow>
         add_tag dump name tag t' (snd (add_tag dump name tag t s))
           = (Inr (), snd (add_tag dump name tag t s))
         \<and> (tag \<in> set (tags m) \<longrightarrow> add_tag dump name tag t s = (Inr (), s))
         \<and> (tag \<notin> set (tags m) \<longrightarrow> remove_tag dump name tag t s = (Inr (), s))
         \<and> (tag \<notin> set (tags m) \<longrightarrow>
               map_of (index (snd (add_tag dump name tag t s))) d
                 = Some (m\<lparr>tags := tags m @ [tag]\<rparr>))
         \<and> (tag \<in> set (tags m) \<longrightarrow>
               map_of (index (snd (remove_tag dump name tag t s))) d
                 = Some (m\<lparr>tags := remove1 tag (tags m)\<rparr>))
         \<and> (tag \<notin> set (tags m) \<and> fst (add_tag dump name tag t s) = Inr () \<longrightarrow>
               map_of (disk (snd (add_tag dump name tag t s))) INDEX_FILENAME
                 = Some (File (new_file (dump (index (snd (add_tag dump name tag t s)))) t)))
         \<and> (tag \<in> set (tags m) \<and> fst (remove_tag dump name tag t s) = Inr () \<longrightarrow>
               map_of (disk (snd (remove_tag dump name tag t s))) INDEX_FILENAME
                 = Some (File (new_file (dump (index (snd (remove_tag dump name tag t s)))) t))))"
proof -
  have b: "basename name = d" using d sanitize_basename by blast
  have g: "get_meta name s' = Inr (map_of (index s') d)" for s'
    using d by (rule get_meta_sanitized)
  have nf_add: "(fst (add_tag dump name tag t s) = Inl NotFound) = (map_of (index s) d = None)"
    by (auto simp: add_tag_def g split: option.splits dest: write_index_error)
  have nf_rem: "(fst (remove_tag dump name tag t s) = Inl NotFound) = (map_of (index s) d = None)"
    by (auto simp: remove_tag_def g split: option.splits dest: write_index_error)
  have rest: "add_tag dump name tag t' (snd (add_tag dump name tag t s))
           = (Inr (), snd (add_tag dump name tag t s))
         \<and> (tag \<in> set (tags m) \<longrightarrow> add_tag dump name tag t s = (Inr (), s))
         \<and> (tag \<notin> set (tags m) \<longrightarrow> remove_tag dump name tag t s = (Inr (), s))
         \<and> (tag \<notin> set (tags m) \<longrightarrow>
               map_of (index (snd (add_tag dump name tag t s))) d
                 = Some (m\<lparr>tags := tags m @ [tag]\<rparr>))
         \<and> (tag \<in> set (tags m) \<longrightarrow>
               map_of (index (snd (remove_tag dump name tag t s))) d
                 = Some (m\<lparr>tags := remove1 tag (tags m)\<rparr>))
         \<and> (tag \<notin> set (tags m) \<and> fst (add_tag dump name tag t s) = Inr () \<longrightarrow>
               map_of (disk (snd (add_tag dump name tag t s))) INDEX_FILENAME
                 = Some (File (new_file (dump (index (snd (add_tag dump name tag t s)))) t)))
         \<and> (tag \<in> set (tags m) \<and> fst (remove_tag dump name tag t s) = Inr () \<longrightarrow>
               map_of (disk (snd (remove_tag dump name tag t s))) INDEX_FILENAME
                 = Some (File (new_file (dump (index (snd (remove_tag dump name tag t s)))) t)))"
    if m: "map_of (index s) d = Some m" for m
  proof (intro conjI impI)
    show "add_tag dump name tag t s = (Inr (), s)" if "tag \<in> set (tags m)"
      using that m by (simp add: add_tag_def g)
    show "remove_tag dump name tag t s = (Inr (), s)" if "tag \<notin> set (tags m)"
      using that m by (simp add: remove_tag_def g)
    show ix: "map_of (index (snd (add_tag dump name tag t s))) d
                = Some (m\<lparr>tags := tags m @ [tag]\<rparr>)"
      if "tag \<notin> set (tags m)"
      using that m by (simp add: add_tag_def g b write_index_index update_conv')
    show "map_of (index (snd (remove_tag dump name tag t s))) d
            = Some (m\<lparr>tags := remove1 tag (tags m)\<rparr>)"
      if "tag \<in> set (tags m)"
      using that m by (simp add: remove_tag_def g b write_index_index update_conv')
    show "add_tag dump name tag t' (snd (add_tag dump name tag t s))
            = (Inr (), snd (add_tag dump name tag t s))"
    proof (cases "tag \<in> set (tags m)")
      case True
      then show ?thesis using m by (simp add: add_tag_def g)
    next
      case False
      from ix [OF False] show ?thesis
        by (simp add: add_tag_def [of dump name tag t'] g)
    qed
    show "map_of (disk (snd (add_tag dump name tag t s))) INDEX_FILENAME
            = Some (File (new_file (dump (index (snd (add_tag dump name tag t s)))) t))"
      if "tag \<notin> set (tags m) \<and> fst (add_tag dump name tag t s) = Inr ()"
      using that m
      by (auto simp add: add_tag_def g b write_index_eq update_conv' split: if_splits)
    show "map_of (disk (snd (remove_tag dump name tag t s))) INDEX_FILENAME
            = Some (File (new_file (dump (index (snd (remove_tag dump name tag t s)))) t))"
      if "tag \<in> set (tags m) \<and> fst (remove_tag dump name tag t s) = Inr ()"
      using that m
      by (auto simp add: remove_tag_def g b write_index_eq update_conv' split: if_splits)
  qed
  from nf_add nf_rem rest show ?thesis by blast
qed

theorem tag_operations_witness:
  "sanitize_filename ''b.txt'' = Inr ''b.txt''
   \<and> show_file ''b.txt'' with_untracked = Inr [''hello'']
   \<and> fst (add_tag example_dump ''b.txt'' ''important'' 6 with_untracked) = Inl NotFound
   \<and> fst (remove_tag example_dump ''b.txt'' ''important'' 6 with_untracked) = Inl NotFound
   \<and> fst (add_tag example_dump ''a.txt'' ''important'' 2 one_doc) = Inr ()
   \<and> map_of (index (snd (add_tag example_dump ''a.txt'' ''important'' 2 one_doc))) ''a.txt''
       = Some \<lparr>filename = ''a.txt'', created_at = 1, last_modified = 1, size_bytes = 0,
               tags = [''important'']\<rparr>
   \<and> add_tag example_dump ''a.txt'' ''important'' 3
         (snd (add_tag example_dump ''a.txt'' ''important'' 2 one_doc))
       = (Inr (), snd (add_tag example_dump ''a.txt'' ''important'' 2 one_doc))
   \<and> remove_tag example_dump ''a.txt'' ''important'' 2 one_doc = (Inr (), one_doc)"
proof -
  let ?m = "\<lparr>filename = ''a.txt'', created_at = 1, last_modified = 1, size_bytes = 0, tags = []\<rparr>"
  have sb: "sanitize_filename ''b.txt'' = Inr ''b.txt''" by code_simp
  have sa: "sanitize_filename ''a.txt'' = Inr ''a.txt''" by code_simp
  have shb: "show_file ''b.txt'' with_untracked = Inr [''hello'']" by code_simp
  have nb: "map_of (index with_untracked) ''b.txt'' = None" by code_simp
  have ma: "map_of (index one_doc) ''a.txt'' = Some ?m" by code_simp
  have ok: "fst (add_tag example_dump ''a.txt'' ''important'' 2 one_doc) = Inr ()" by code_simp
  show ?thesis
    using tag_operations [OF sb, of example_dump "''important''" 6 with_untracked]
          tag_operations [OF sa, of example_dump "''important''" 2 one_doc 3]
          sb shb nb ma ok
    by simp
qed

subsection \<open>The index and the directory\<close>

text \<open>
  C2 (the code departs from it). \<open>remove_file\<close> unlinks the file at the sanitized
  path but looks the index up under the name as given. Called with \<open>sub/a.txt\<close> on the
  manager that holds \<open>a.txt\<close>, it returns normally, \<open>a.txt\<close> is gone from the directory,
  and the index still has its entry: the invariant, which held before, is broken. The
  same call with the name \<open>a.txt\<close> keeps it.
\<close>

theorem remove_file_stale_entry:
  "index_matches_disk one_doc
   \<and> fst (remove_file example_dump ''sub/a.txt'' 2 one_doc) = Inr ()
   \<and> map_of (disk (snd (remove_file example_dump ''sub/a.txt'' 2 one_doc))) ''a.txt'' = None
   \<and> map_of (index (snd (remove_file example_dump ''sub/a.txt'' 2 one_doc))) ''a.txt''
       = Some \<lparr>filename = ''a.txt'', created_at = 1, last_modified = 1, size_bytes = 0,
               tags = []\<rparr>
   \<and> \<not> index_matches_disk (snd (remove_file example_dump ''sub/a.txt'' 2 one_doc))
   \<and> index_matches_disk (snd (remove_file example_dump ''a.txt'' 2 one_doc))"
  by code_simp

subsection \<open>The rewrite in \<open>remove_line\<close>\<close>

lemma remove_line_phases:
  "remove_line dump name i t now s =
     (case remove_line_open name i t s of
        (Inl e, s') \<Rightarrow> (Inl e, s')
      | (Inr (p, rest, removed), s1) \<Rightarrow>
          (case update_meta_for dump p t now (write_data p (concat rest) t s1) of
             (Inl e, s') \<Rightarrow> (Inl e, s')
           | (Inr u, s') \<Rightarrow> (Inr (rstrip_nl removed), s')))"
  by (simp add: remove_line_def remove_line_open_def Let_def
           split: sum.splits option.splits node.splits)

text \<open>
  C9 (the code departs from it). \<open>remove_line\<close> rewrites the document in place:
  \<open>path.open("w")\<close> truncates it before \<open>writelines\<close> writes anything, and no temporary
  file is renamed over it as \<open>_write_index\<close> does for the index. Removing line 2 of the
  three-line \<open>a.txt\<close>: when the rewrite starts, the document that readers see has no
  lines at all, which is neither the old content nor the new one.
\<close>

theorem remove_line_truncates_first:
  "show_file ''a.txt'' three_lines = Inr [''line one'', ''another line'', ''final'']
   \<and> fst (remove_line_open ''a.txt'' 2 3 three_lines)
       = Inr (example_dir @ [''a.txt''],
              [''line one'' @ [LF], ''final'' @ [LF]], ''another line'' @ [LF])
   \<and> show_file ''a.txt'' (snd (remove_line_open ''a.txt'' 2 3 three_lines)) = Inr []
   \<and> remove_line example_dump ''a.txt'' 2 3 3 three_lines
       = (Inr ''another line'', snd (remove_line example_dump ''a.txt'' 2 3 3 three_lines))
   \<and> show_file ''a.txt'' (snd (remove_line example_dump ''a.txt'' 2 3 3 three_lines))
       = Inr [''line one'', ''final'']"
  by code_simp

subsection \<open>Rebuilding the index\<close>

lemma update_fresh: "k \<notin> fst ` set al \<Longrightarrow> AList.update k v al = al @ [(k, v)]"
  by (induction al) auto

lemma foldl_update_fresh:
  "distinct (map fst es) \<Longrightarrow> fst ` set es \<inter> fst ` set acc = {} \<Longrightarrow>
   foldl (\<lambda>ix e. AList.update (fst e) (g e) ix) acc es = acc @ map (\<lambda>e. (fst e, g e)) es"
proof (induction es arbitrary: acc)
  case Nil
  then show ?case by simp
next
  case (Cons e es)
  have fresh: "fst e \<notin> fst ` set acc" using Cons.prems(2) by auto
  have "fst ` set es \<inter> fst ` set (acc @ [(fst e, g e)]) = {}"
    using Cons.prems by auto
  with Cons.IH [of "acc @ [(fst e, g e)]"] Cons.prems(1) fresh show ?case
    by (simp add: update_fresh)
qed

lemma set_regular_files: "set (regular_files es) = {(n, f). (n, File f) \<in> set es}"
  by (auto simp: regular_files_def split: node.splits)

lemma regular_files_Cons:
  "regular_files ((n, nd) # es) = (case nd of Dir \<Rightarrow> [] | File f \<Rightarrow> [(n, f)]) @ regular_files es"
  by (simp add: regular_files_def)

lemma regular_files_Nil [simp]: "regular_files [] = []"
  by (simp add: regular_files_def)

lemma fst_regular_files: "fst ` set (regular_files es) \<subseteq> fst ` set es"
  by (force simp: set_regular_files)

lemma distinct_regular_files:
  "distinct (map fst es) \<Longrightarrow> distinct (map fst (regular_files es))"
proof (induction es)
  case Nil
  then show ?case by simp
next
  case (Cons e es)
  obtain n nd where e: "e = (n, nd)" by (cases e)
  have "n \<notin> fst ` set (regular_files es)"
    using Cons.prems fst_regular_files [of es] by (auto simp: e)
  with Cons show ?case
    by (auto simp: e regular_files_Cons split: node.splits)
qed

lemma sorted_regular_files:
  "sorted (map fst es) \<Longrightarrow> sorted (map fst (regular_files es))"
proof (induction es)
  case Nil
  then show ?case by simp
next
  case (Cons e es)
  obtain n nd where e: "e = (n, nd)" by (cases e)
  have "\<forall>x \<in> fst ` set (regular_files es). n \<le> x"
    using Cons.prems fst_regular_files [of es] by (force simp: e)
  with Cons show ?case
    by (auto simp: e regular_files_Cons split: node.splits)
qed

lemma set_documents:
  "set (documents s) = {(n, f). (n, File f) \<in> set (disk s) \<and> n \<noteq> INDEX_FILENAME}"
  by (auto simp: documents_def set_regular_files not_index_def)

lemma distinct_documents:
  "distinct (map fst (disk s)) \<Longrightarrow> distinct (map fst (documents s))"
proof -
  assume "distinct (map fst (disk s))"
  then have "distinct (map fst (sort_key fst (disk s)))"
    by (simp add: distinct_map)
  then show ?thesis
    by (simp add: documents_def distinct_map_filter distinct_regular_files)
qed

lemma sorted_documents: "sorted (map fst (documents s))"
  by (simp add: documents_def sorted_regular_files sorted_filter)

lemma list_files_index:
  "index (snd (list_files dump t s)) =
     foldl (\<lambda>ix e. AList.update (fst e) (meta_of_stat e) ix) [] (documents s)"
  by (simp add: list_files_def rebuild_index_def write_index_eq split: prod.splits sum.splits)

text \<open>
  C3 (the code departs from it). \<open>a.txt\<close> was created at instant 1, tagged
  \<open>important\<close> and then extended: \<open>_update_meta_for\<close> kept \<open>created_at = 1\<close> and the
  tag and set \<open>last_modified = 4\<close>. \<open>list_files\<close> then returns, and leaves in the
  index, an entry for \<open>a.txt\<close> with the times of the file system (3 and 3) and no
  tag: the creation time, the modification time and the tag of a tracked file are
  lost.
\<close>

theorem list_files_resets_tracked_entry:
  "map_of (index tagged_doc) ''a.txt''
     = Some \<lparr>filename = ''a.txt'', created_at = 1, last_modified = 4, size_bytes = 6,
             tags = [''important'']\<rparr>
   \<and> list_files example_dump 9 tagged_doc
     = (Inr [\<lparr>filename = ''a.txt'', created_at = 3, last_modified = 3, size_bytes = 6,
              tags = []\<rparr>],
        snd (list_files example_dump 9 tagged_doc))
   \<and> map_of (index (snd (list_files example_dump 9 tagged_doc))) ''a.txt''
     \<noteq> map_of (index tagged_doc) ''a.txt''"
  by code_simp

text \<open>
  What \<open>_rebuild_index\<close> computes, in terms of the directory as it is when
  \<open>list_files\<close> is called: the new index is a function of that directory alone.
\<close>

lemma rebuild_from_directory:
  assumes dist: "distinct (map fst (disk s))"
  shows
  "index (snd (list_files dump t s)) = map (\<lambda>e. (fst e, meta_of_stat e)) (documents s)
   \<and> (\<forall>n m. (map_of (index (snd (list_files dump t s))) n = Some m) =
         (\<exists>f. map_of (disk s) n = Some (File f) \<and> n \<noteq> INDEX_FILENAME
              \<and> m = \<lparr>filename = n, created_at = st_ctime f, last_modified = st_mtime f,
                      size_bytes = length (content f), tags = []\<rparr>))
   \<and> sorted (map fst (index (snd (list_files dump t s))))
   \<and> (\<forall>ms. fst (list_files dump t s) = Inr ms \<longrightarrow>
         ms = map meta_of_stat (documents s))"
proof -
  let ?ix = "index (snd (list_files dump t s))"
  have ix: "?ix = map (\<lambda>e. (fst e, meta_of_stat e)) (documents s)"
    using foldl_update_fresh [OF distinct_documents [OF dist], of "[]" meta_of_stat]
    by (simp add: list_files_index)
  have keys: "map fst ?ix = map fst (documents s)"
    by (simp add: ix comp_def)
  have dix: "distinct (map fst ?ix)"
    using distinct_documents [OF dist] by (simp add: keys)
  have look: "(map_of ?ix n = Some m) =
         (\<exists>f. map_of (disk s) n = Some (File f) \<and> n \<noteq> INDEX_FILENAME
              \<and> m = \<lparr>filename = n, created_at = st_ctime f, last_modified = st_mtime f,
                      size_bytes = length (content f), tags = []\<rparr>)" for n m
  proof -
    have "(map_of ?ix n = Some m) = ((n, m) \<in> set ?ix)"
      using dix by simp
    also have "\<dots> = (\<exists>f. (n, f) \<in> set (documents s) \<and> m = meta_of_stat (n, f))"
      by (force simp: ix)
    also have "\<dots> = (\<exists>f. (n, File f) \<in> set (disk s) \<and> n \<noteq> INDEX_FILENAME
                          \<and> m = meta_of_stat (n, f))"
      by (simp add: set_documents)
    also have "\<dots> = (\<exists>f. map_of (disk s) n = Some (File f) \<and> n \<noteq> INDEX_FILENAME
                          \<and> m = meta_of_stat (n, f))"
      using dist by simp
    finally show ?thesis by (simp add: meta_of_stat_def st_size_def)
  qed
  have ret: "ms = map meta_of_stat (documents s)" if "fst (list_files dump t s) = Inr ms" for ms
  proof -
    from that have "ms = map snd ?ix"
      by (auto simp: list_files_def split: prod.splits sum.splits)
    then show ?thesis by (simp add: ix comp_def)
  qed
  have srt: "sorted (map fst ?ix)"
    using sorted_documents [of s] by (simp add: keys)
  from ix look srt ret show ?thesis by blast
qed

lemma rebuild_from_directory_example:
  "distinct (map fst (disk with_untracked))
   \<and> map_of (index with_untracked) ''b.txt'' = None
   \<and> map_of (index (snd (list_files example_dump 9 with_untracked))) ''b.txt''
       = Some \<lparr>filename = ''b.txt'', created_at = 5, last_modified = 5, size_bytes = 5,
               tags = []\<rparr>
   \<and> map_of (index (snd (list_files example_dump 9 with_untracked))) ''a.txt''
       = Some \<lparr>filename = ''a.txt'', created_at = 1, last_modified = 1, size_bytes = 0,
               tags = []\<rparr>
   \<and> fst (list_files example_dump 9 with_untracked)
       = Inr [\<lparr>filename = ''a.txt'', created_at = 1, last_modified = 1, size_bytes = 0,
                tags = []\<rparr>,
              \<lparr>filename = ''b.txt'', created_at = 5, last_modified = 5, size_bytes = 5,
                tags = []\<rparr>]"
proof -
  have dist: "distinct (map fst (disk with_untracked))" by code_simp
  have nb: "map_of (index with_untracked) ''b.txt'' = None" by code_simp
  have fb: "map_of (disk with_untracked) ''b.txt'' = Some (File (new_file ''hello'' 5))"
    by code_simp
  have fa: "map_of (disk with_untracked) ''a.txt'' = Some (File (new_file [] 1))"
    by code_simp
  have ne: "''b.txt'' \<noteq> INDEX_FILENAME" "''a.txt'' \<noteq> INDEX_FILENAME"
    by (simp_all add: INDEX_FILENAME_def)
  have docs: "documents with_untracked
                = [(''a.txt'', new_file [] 1), (''b.txt'', new_file ''hello'' 5)]"
    by code_simp
  have ok: "fst (list_files example_dump 9 with_untracked)
              = Inr (map snd (index (snd (list_files example_dump 9 with_untracked))))"
    by code_simp
  note r = rebuild_from_directory [OF dist, of example_dump 9]
  have look: "(map_of (index (snd (list_files example_dump 9 with_untracked))) n = Some m) =
         (\<exists>f. map_of (disk with_untracked) n = Some (File f) \<and> n \<noteq> INDEX_FILENAME
              \<and> m = \<lparr>filename = n, created_at = st_ctime f, last_modified = st_mtime f,
                      size_bytes = length (content f), tags = []\<rparr>)" for n m
    using r by blast
  have b: "map_of (index (snd (list_files example_dump 9 with_untracked))) ''b.txt''
       = Some \<lparr>filename = ''b.txt'', created_at = 5, last_modified = 5, size_bytes = 5,
               tags = []\<rparr>"
    by (simp add: look fb ne new_file_def)
  have a: "map_of (index (snd (list_files example_dump 9 with_untracked))) ''a.txt''
       = Some \<lparr>filename = ''a.txt'', created_at = 1, last_modified = 1, size_bytes = 0,
               tags = []\<rparr>"
    by (simp add: look fa ne new_file_def)
  from r ok have "fst (list_files example_dump 9 with_untracked)
                    = Inr (map meta_of_stat (documents with_untracked))"
    by auto
  then have ret: "fst (list_files example_dump 9 with_untracked)
       = Inr [\<lparr>filename = ''a.txt'', created_at = 1, last_modified = 1, size_bytes = 0,
                tags = []\<rparr>,
              \<lparr>filename = ''b.txt'', created_at = 5, last_modified = 5, size_bytes = 5,
                tags = []\<rparr>]"
    by (simp add: docs meta_of_stat_def st_size_def new_file_def)
  from dist nb a b ret show ?thesis by simp
qed

subsection \<open>The size limit\<close>

lemma files_count_entries:
  "files_count s = length (filter (\<lambda>(n, nd). nd \<noteq> Dir \<and> n \<noteq> INDEX_FILENAME) (disk s))"
proof -
  have "length (filter not_index (regular_files es))
          = length (filter (\<lambda>(n, nd). nd \<noteq> Dir \<and> n \<noteq> INDEX_FILENAME) es)" for es
    by (induction es) (auto simp: regular_files_def not_index_def split: node.splits)
  then show ?thesis by (simp add: files_count_def)
qed

lemma files_count_card:
  assumes "distinct (map fst (disk s))"
  shows "files_count s = card {n. \<exists>f. map_of (disk s) n = Some (File f) \<and> n \<noteq> INDEX_FILENAME}"
proof -
  let ?docs = "filter not_index (regular_files (disk s))"
  have d: "distinct (map fst ?docs)"
    using assms by (simp add: distinct_map_filter distinct_regular_files)
  have "set (map fst ?docs) = {n. \<exists>f. map_of (disk s) n = Some (File f) \<and> n \<noteq> INDEX_FILENAME}"
    using assms by (force simp: set_regular_files not_index_def)
  then have "card {n. \<exists>f. map_of (disk s) n = Some (File f) \<and> n \<noteq> INDEX_FILENAME}
               = length (map fst ?docs)"
    using distinct_card [OF d] by simp
  then show ?thesis by (simp add: files_count_def)
qed

lemma crowded_distinct: "distinct (map fst (crowded_disk n))"
  by (auto simp: crowded_disk_def distinct_map inj_on_def comp_def INDEX_FILENAME_def)

text \<open>
  C6. \<open>create_file\<close> fails with \<open>CollectionFull\<close> exactly when the directory holds at
  least 100 entries that are regular files and are not named \<open>index.json\<close>;
  subdirectories and the index file do not count. When the directory lists no name
  twice, that is the number of names under which it holds such a file. The check
  comes first: it does not look at the name or at the overwrite flag, so it wins over
  \<open>AlreadyExists\<close> and also rejects overwriting a document that exists; the state is
  left as it was.
\<close>

theorem create_full_iff:
  "((fst (create_file dump name overwrite t now s) = Inl CollectionFull) =
      (100 \<le> length (filter (\<lambda>(n, nd). nd \<noteq> Dir \<and> n \<noteq> INDEX_FILENAME) (disk s))))
   \<and> (100 \<le> length (filter (\<lambda>(n, nd). nd \<noteq> Dir \<and> n \<noteq> INDEX_FILENAME) (disk s)) \<longrightarrow>
         create_file dump name overwrite t now s = (Inl CollectionFull, s))
   \<and> (distinct (map fst (disk s)) \<longrightarrow>
         (fst (create_file dump name overwrite t now s) = Inl CollectionFull) =
         (100 \<le> card {n. \<exists>f. map_of (disk s) n = Some (File f) \<and> n \<noteq> INDEX_FILENAME}))"
proof -
  have a: "(fst (create_file dump name overwrite t now s) = Inl CollectionFull)
             = (100 \<le> files_count s)"
  proof (cases "100 \<le> files_count s")
    case True
    then show ?thesis by (simp add: create_file_def MAX_FILES_def)
  next
    case False
    then have "fst (create_file dump name overwrite t now s) \<noteq> Inl CollectionFull"
      by (auto simp: create_file_def MAX_FILES_def split: sum.splits if_splits
               dest: file_path_error open_w_error update_meta_for_error)
    with False show ?thesis by simp
  qed
  have b: "100 \<le> files_count s \<Longrightarrow> create_file dump name overwrite t now s = (Inl CollectionFull, s)"
    by (simp add: create_file_def MAX_FILES_def)
  show ?thesis
  proof (intro conjI impI)
    show "(fst (create_file dump name overwrite t now s) = Inl CollectionFull) =
      (100 \<le> length (filter (\<lambda>(n, nd). nd \<noteq> Dir \<and> n \<noteq> INDEX_FILENAME) (disk s)))"
      using a by (simp only: files_count_entries)
    show "create_file dump name overwrite t now s = (Inl CollectionFull, s)"
      if "100 \<le> length (filter (\<lambda>(n, nd). nd \<noteq> Dir \<and> n \<noteq> INDEX_FILENAME) (disk s))"
      using that b by (simp only: files_count_entries)
    show "(fst (create_file dump name overwrite t now s) = Inl CollectionFull) =
         (100 \<le> card {n. \<exists>f. map_of (disk s) n = Some (File f) \<and> n \<noteq> INDEX_FILENAME})"
      if "distinct (map fst (disk s))"
      using a by (simp only: files_count_card [OF that])
  qed
qed

theorem create_full_iff_witness:
  "distinct (map fst (disk full_mgr)) \<and> distinct (map fst (disk almost_full_mgr))
   \<and> length (disk full_mgr) = 102
   \<and> card {n. \<exists>f. map_of (disk full_mgr) n = Some (File f) \<and> n \<noteq> INDEX_FILENAME} = 100
   \<and> show_file ''aaa'' full_mgr = Inr []
   \<and> create_file example_dump ''aaa'' True 1 1 full_mgr = (Inl CollectionFull, full_mgr)
   \<and> create_file example_dump ''new.txt'' False 1 1 full_mgr = (Inl CollectionFull, full_mgr)
   \<and> length (disk almost_full_mgr) = 101
   \<and> card {n. \<exists>f. map_of (disk almost_full_mgr) n = Some (File f) \<and> n \<noteq> INDEX_FILENAME} = 99
   \<and> fst (create_file example_dump ''new.txt'' False 1 1 almost_full_mgr) \<noteq> Inl CollectionFull"
proof -
  have d1: "distinct (map fst (disk full_mgr))" by (simp add: full_mgr_def crowded_distinct)
  have d2: "distinct (map fst (disk almost_full_mgr))" by (simp add: almost_full_mgr_def crowded_distinct)
  have l1: "length (disk full_mgr) = 102" by (simp add: full_mgr_def crowded_disk_def)
  have l2: "length (disk almost_full_mgr) = 101" by (simp add: almost_full_mgr_def crowded_disk_def)
  have n1: "files_count full_mgr = 100" by code_simp
  have n2: "files_count almost_full_mgr = 99" by code_simp
  have c1: "card {n. \<exists>f. map_of (disk full_mgr) n = Some (File f) \<and> n \<noteq> INDEX_FILENAME} = 100"
    using files_count_card [OF d1] n1 by simp
  have c2: "card {n. \<exists>f. map_of (disk almost_full_mgr) n = Some (File f) \<and> n \<noteq> INDEX_FILENAME} = 99"
    using files_count_card [OF d2] n2 by simp
  have e1: "length (filter (\<lambda>(n, nd). nd \<noteq> Dir \<and> n \<noteq> INDEX_FILENAME) (disk full_mgr)) = 100"
    using files_count_entries [of full_mgr] n1 by simp
  have e2: "length (filter (\<lambda>(n, nd). nd \<noteq> Dir \<and> n \<noteq> INDEX_FILENAME) (disk almost_full_mgr)) = 99"
    using files_count_entries [of almost_full_mgr] n2 by simp
  have ex: "show_file ''aaa'' full_mgr = Inr []" by code_simp
  have r1: "create_file example_dump ''aaa'' True 1 1 full_mgr = (Inl CollectionFull, full_mgr)"
    using create_full_iff [of example_dump "''aaa''" True 1 1 full_mgr] e1 by simp
  have r2: "create_file example_dump ''new.txt'' False 1 1 full_mgr = (Inl CollectionFull, full_mgr)"
    using create_full_iff [of example_dump "''new.txt''" False 1 1 full_mgr] e1 by simp
  have r3: "fst (create_file example_dump ''new.txt'' False 1 1 almost_full_mgr) \<noteq> Inl CollectionFull"
    using create_full_iff [of example_dump "''new.txt''" False 1 1 almost_full_mgr] e2 by simp
  from d1 d2 l1 l2 c1 c2 ex r1 r2 r3 show ?thesis by simp
qed

subsection \<open>Search\<close>

lemma contains_iff: "contains needle hay = (\<exists>pre suf. hay = pre @ needle @ suf)"
proof (induction hay)
  case Nil
  then show ?case by auto
next
  case (Cons c cs)
  show ?case
  proof
    assume "contains needle (c # cs)"
    then consider "prefix needle (c # cs)" | "contains needle cs" by auto
    then show "\<exists>pre suf. c # cs = pre @ needle @ suf"
    proof cases
      case 1
      then obtain suf where "c # cs = needle @ suf" by (auto simp: prefix_def)
      then have "c # cs = [] @ needle @ suf" by simp
      then show ?thesis by blast
    next
      case 2
      with Cons.IH obtain pre suf where "cs = pre @ needle @ suf" by blast
      then have "c # cs = (c # pre) @ needle @ suf" by simp
      then show ?thesis by blast
    qed
  next
    assume "\<exists>pre suf. c # cs = pre @ needle @ suf"
    then obtain pre suf where eq: "c # cs = pre @ needle @ suf" by blast
    show "contains needle (c # cs)"
    proof (cases pre)
      case Nil
      with eq have "prefix needle (c # cs)" by (simp add: prefix_def)
      then show ?thesis by simp
    next
      case (Cons p ps)
      with eq have "cs = ps @ needle @ suf" by simp
      with Cons.IH have "contains needle cs" by blast
      then show ?thesis by simp
    qed
  qed
qed

lemma in_set_numbered:
  "((i, x) \<in> set (zip [Suc 0 ..< Suc (length xs)] xs)) =
     (Suc 0 \<le> i \<and> i \<le> length xs \<and> x = xs ! (i - Suc 0))"
proof
  assume "(i, x) \<in> set (zip [Suc 0 ..< Suc (length xs)] xs)"
  then obtain k where k: "k < length xs" "[Suc 0 ..< Suc (length xs)] ! k = i" "xs ! k = x"
    by (auto simp: in_set_zip)
  then have "i = Suc k" by (simp add: nth_upt del: upt_Suc)
  with k show "Suc 0 \<le> i \<and> i \<le> length xs \<and> x = xs ! (i - Suc 0)" by auto
next
  assume a: "Suc 0 \<le> i \<and> i \<le> length xs \<and> x = xs ! (i - Suc 0)"
  then have "i - Suc 0 < length xs" "[Suc 0 ..< Suc (length xs)] ! (i - Suc 0) = i"
    by (auto simp: nth_upt simp del: upt_Suc)
  with a have "\<exists>k. [Suc 0 ..< Suc (length xs)] ! k = i \<and> xs ! k = x \<and> k < length xs"
    by blast
  then show "(i, x) \<in> set (zip [Suc 0 ..< Suc (length xs)] xs)"
    by (simp add: in_set_zip del: upt_Suc) 
qed

lemma in_matches_in:
  "((f, i, l) \<in> set (matches_in text ic e)) =
     (f = fst e \<and> 1 \<le> i \<and> i \<le> length (read_lines (content (snd e)))
      \<and> l = rstrip_nl (read_lines (content (snd e)) ! (i - 1))
      \<and> contains (if ic then lower text else text)
           (if ic then lower (read_lines (content (snd e)) ! (i - 1))
            else read_lines (content (snd e)) ! (i - 1)))"
  by (force simp: matches_in_def Let_def in_set_numbered simp del: upt_Suc)

lemma sorted_matches_in:
  "sorted_wrt (<) (map (\<lambda>(f, i, l). (f, i)) (matches_in text ic e))"
proof -
  let ?ls = "read_lines (content (snd e))"
  let ?ns = "[1 ..< Suc (length ?ls)]"
  have "sorted_wrt (<) (map fst (zip ?ns ?ls))"
    by (simp add: map_fst_zip_take sorted_wrt_take del: upt_Suc)
  then have "sorted_wrt (\<lambda>x y. fst x < fst y) (zip ?ns ?ls)"
    by (simp add: sorted_wrt_map)
  then have "sorted_wrt (\<lambda>x y. (fst e, fst x) < (fst e, fst y)) (zip ?ns ?ls)"
    by (simp add: less_prod_def)
  then show ?thesis
    by (simp add: matches_in_def Let_def sorted_wrt_map sorted_wrt_filter case_prod_beta
             del: upt_Suc)
qed

lemma sorted_find_aux:
  "sorted_wrt (<) (map fst es) \<Longrightarrow>
   sorted_wrt (<) (map (\<lambda>(f, i, l). (f, i)) (concat (map (matches_in text ic) es)))"
proof (induction es)
  case Nil
  then show ?case by simp
next
  case (Cons e es)
  have cross: "x < y"
    if "x \<in> set (map (\<lambda>(f, i, l). (f, i)) (matches_in text ic e))"
       "y \<in> set (map (\<lambda>(f, i, l). (f, i)) (concat (map (matches_in text ic) es)))" for x y
  proof -
    from that(1) obtain i where x: "x = (fst e, i)"
      by (auto simp: in_matches_in)
    from that(2) obtain e' j where y: "e' \<in> set es" "y = (fst e', j)"
      by (auto simp: in_matches_in)
    from Cons.prems y(1) have "fst e < fst e'" by auto
    with x y show ?thesis by (simp add: less_prod_def)
  qed
  from Cons have "sorted_wrt (<) (map (\<lambda>(f, i, l). (f, i)) (concat (map (matches_in text ic) es)))"
    by simp
  with cross sorted_matches_in [of "text" ic e] show ?case
    by (simp add: sorted_wrt_append)
qed

lemma sorted_wrt_documents:
  "distinct (map fst (disk s)) \<Longrightarrow> sorted_wrt (<) (map fst (documents s))"
  using sorted_documents [of s] distinct_documents [of s]
  by (simp add: strict_sorted_iff)

lemma in_documents:
  "distinct (map fst (disk s)) \<Longrightarrow>
   ((f, fl) \<in> set (documents s)) = (map_of (disk s) f = Some (File fl) \<and> f \<noteq> INDEX_FILENAME)"
  by (simp add: set_documents)

text \<open>
  C7. With \<open>ignore_case\<close>, \<open>find_text\<close> reports the line \<open>i\<close> of the file \<open>f\<close> with text
  \<open>l\<close> exactly when \<open>f\<close> is a regular file of the directory other than the index file,
  \<open>i\<close> is one of its line numbers (from 1), \<open>l\<close> is that line without its trailing
  newlines, and the lowercased search text occurs somewhere in the lowercased line.
  The results are strictly ascending in (file name, line number), so they are ordered
  by name and then by line and no line is reported twice.
\<close>

theorem find_text_ignore_case:
  assumes dist: "distinct (map fst (disk s))"
  shows
  "(\<forall>f i l. ((f, i, l) \<in> set (find_text pat True s)) =
       (\<exists>fl. map_of (disk s) f = Some (File fl) \<and> f \<noteq> INDEX_FILENAME
             \<and> 1 \<le> i \<and> i \<le> length (read_lines (content fl))
             \<and> l = rstrip_nl (read_lines (content fl) ! (i - 1))
             \<and> (\<exists>pre suf. lower (read_lines (content fl) ! (i - 1)) = pre @ lower pat @ suf)))
   \<and> sorted_wrt (<) (map (\<lambda>(f, i, l). (f, i)) (find_text pat True s))"
proof (intro conjI allI)
  fix f i l
  have "((f, i, l) \<in> set (find_text pat True s)) =
          (\<exists>e \<in> set (documents s). (f, i, l) \<in> set (matches_in pat True e))"
    by (simp add: find_text_def)
  also have "\<dots> = (\<exists>fl. (f, fl) \<in> set (documents s)
                      \<and> (f, i, l) \<in> set (matches_in pat True (f, fl)))"
    by (force simp: in_matches_in)
  also have "\<dots> = (\<exists>fl. map_of (disk s) f = Some (File fl) \<and> f \<noteq> INDEX_FILENAME
             \<and> 1 \<le> i \<and> i \<le> length (read_lines (content fl))
             \<and> l = rstrip_nl (read_lines (content fl) ! (i - 1))
             \<and> (\<exists>pre suf. lower (read_lines (content fl) ! (i - 1)) = pre @ lower pat @ suf))"
    by (simp add: in_documents [OF dist] in_matches_in contains_iff)
  finally show "((f, i, l) \<in> set (find_text pat True s)) =
       (\<exists>fl. map_of (disk s) f = Some (File fl) \<and> f \<noteq> INDEX_FILENAME
             \<and> 1 \<le> i \<and> i \<le> length (read_lines (content fl))
             \<and> l = rstrip_nl (read_lines (content fl) ! (i - 1))
             \<and> (\<exists>pre suf. lower (read_lines (content fl) ! (i - 1)) = pre @ lower pat @ suf))" .
next
  show "sorted_wrt (<) (map (\<lambda>(f, i, l). (f, i)) (find_text pat True s))"
    unfolding find_text_def
    by (rule sorted_find_aux) (rule sorted_wrt_documents [OF dist])
qed

theorem find_text_ignore_case_witness:
  "distinct (map fst (disk search_mgr))
   \<and> find_text ''ERROR'' True search_mgr
       = [(''b.txt'', 1, ''error occurred''), (''b.txt'', 3, ''error and ERROR again''),
          (''error.log'', 2, ''an Error here'')]
   \<and> (''b.txt'', 1, ''error occurred'') \<in> set (find_text ''ERROR'' True search_mgr)
   \<and> (\<forall>i l. (INDEX_FILENAME, i, l) \<notin> set (find_text ''ERROR'' True search_mgr))
   \<and> sorted_wrt (<) (map (\<lambda>(f, i, l). (f, i)) (find_text ''ERROR'' True search_mgr))"
proof -
  have dist: "distinct (map fst (disk search_mgr))" by code_simp
  have ev: "find_text ''ERROR'' True search_mgr
       = [(''b.txt'', 1, ''error occurred''), (''b.txt'', 3, ''error and ERROR again''),
          (''error.log'', 2, ''an Error here'')]"
    by code_simp
  note r = find_text_ignore_case [OF dist, of "''ERROR''"]
  have fl: "map_of (disk search_mgr) ''b.txt''
              = Some (File (new_file (''error occurred'' @ [LF] @ ''fine'' @ [LF]
                                       @ ''error and ERROR again'' @ [LF]) 2))"
    by code_simp
  have ln: "read_lines (''error occurred'' @ [LF] @ ''fine'' @ [LF]
                         @ ''error and ERROR again'' @ [LF])
              = [''error occurred'' @ [LF], ''fine'' @ [LF], ''error and ERROR again'' @ [LF]]"
    by code_simp
  have lw: "lower (''error occurred'' @ [LF]) = [] @ lower ''ERROR'' @ ('' occurred'' @ [LF])"
    by code_simp
  have st: "rstrip_nl (''error occurred'' @ [LF]) = ''error occurred''" by code_simp
  have ne: "''b.txt'' \<noteq> INDEX_FILENAME" by (simp add: INDEX_FILENAME_def)
  have "\<exists>pre suf. lower (''error occurred'' @ [LF]) = pre @ lower ''ERROR'' @ suf"
    using lw by blast
  with r fl ln st ne have mem: "(''b.txt'', 1, ''error occurred'') \<in> set (find_text ''ERROR'' True search_mgr)"
    by (simp add: new_file_def)
  from r have no_ix: "\<forall>i l. (INDEX_FILENAME, i, l) \<notin> set (find_text ''ERROR'' True search_mgr)"
    by simp
  from r have srt: "sorted_wrt (<) (map (\<lambda>(f, i, l). (f, i)) (find_text ''ERROR'' True search_mgr))"
    by blast
  from dist ev mem no_ix srt show ?thesis by blast
qed

subsection \<open>Appending and reading back\<close>

lemma translate_no_CR: "CR \<notin> set x \<Longrightarrow> translate_newlines x = x"
  by (induction x rule: translate_newlines.induct) auto

lemma translate_append:
  "c = [] \<or> last c \<noteq> CR \<Longrightarrow>
   translate_newlines (c @ x) = translate_newlines c @ translate_newlines x"
proof (induction c rule: translate_newlines.induct)
  case 1
  then show ?case by simp
next
  case (2 a)
  then show ?case by (cases x) auto
next
  case (3 a b cs)
  then show ?case by (auto split: if_splits)
qed

lemma translate_last_LF:
  "c \<noteq> [] \<Longrightarrow> last c = LF \<Longrightarrow>
   translate_newlines c \<noteq> [] \<and> last (translate_newlines c) = LF"
  by (induction c rule: translate_newlines.induct) (auto split: if_splits)

lemma split_lines_append:
  "a = [] \<or> last a = LF \<Longrightarrow> split_lines (a @ b) = split_lines a @ split_lines b"
proof (induction a)
  case Nil
  then show ?case by simp
next
  case (Cons c cs)
  show ?case
  proof (cases "cs = []")
    case True
    with Cons.prems show ?thesis by simp
  next
    case False
    with Cons.prems have "last cs = LF" by simp
    with Cons.IH have ih: "split_lines (cs @ b) = split_lines cs @ split_lines b" by simp
    from False have "split_lines cs \<noteq> []" by (cases cs) (auto split: list.splits)
    then show ?thesis by (auto simp: ih split: list.splits)
  qed
qed

lemma split_lines_one: "LF \<notin> set l \<Longrightarrow> split_lines (l @ [LF]) = [l @ [LF]]"
  by (induction l) auto

lemma split_lines_terminated:
  "\<forall>l \<in> set ls. LF \<notin> set (g l) \<Longrightarrow>
   split_lines (concat (map (\<lambda>l. g l @ [LF]) ls)) = map (\<lambda>l. g l @ [LF]) ls"
proof (induction ls)
  case Nil
  then show ?case by simp
next
  case (Cons l ls)
  have "split_lines ((g l @ [LF]) @ concat (map (\<lambda>l. g l @ [LF]) ls))
          = split_lines (g l @ [LF]) @ split_lines (concat (map (\<lambda>l. g l @ [LF]) ls))"
    by (rule split_lines_append) simp
  with Cons show ?case by (simp add: split_lines_one)
qed

lemma rstrip_nl_snoc: "rstrip_nl (x @ [LF]) = rstrip_nl x"
  by (simp add: rstrip_nl_def)

lemma rstrip_nl_idem: "rstrip_nl (rstrip_nl x) = rstrip_nl x"
  by (simp add: rstrip_nl_def dropWhile_idem)

lemma read_lines_appended:
  assumes tm: "c = [] \<or> last c = LF"
    and plain: "\<forall>l \<in> set ls. LF \<notin> set (rstrip_nl l) \<and> CR \<notin> set (rstrip_nl l)"
  shows "map rstrip_nl (read_lines (c @ concat (map (\<lambda>l. rstrip_nl l @ [LF]) ls)))
           = map rstrip_nl (read_lines c) @ map rstrip_nl ls"
proof -
  let ?app = "concat (map (\<lambda>l. rstrip_nl l @ [LF]) ls)"
  have noCR: "CR \<notin> set ?app" using plain by auto
  have "translate_newlines (c @ ?app) = translate_newlines c @ translate_newlines ?app"
    using tm by (intro translate_append) auto
  then have tr: "translate_newlines (c @ ?app) = translate_newlines c @ ?app"
    by (simp add: translate_no_CR [OF noCR])
  have "translate_newlines c = [] \<or> last (translate_newlines c) = LF"
  proof (cases "c = []")
    case True
    then show ?thesis by simp
  next
    case False
    with tm translate_last_LF [of c] show ?thesis by simp
  qed
  then have "split_lines (translate_newlines c @ ?app)
               = split_lines (translate_newlines c) @ split_lines ?app"
    by (rule split_lines_append)
  moreover have "split_lines ?app = map (\<lambda>l. rstrip_nl l @ [LF]) ls"
    using plain by (intro split_lines_terminated) simp
  ultimately show ?thesis
    by (simp add: read_lines_def tr comp_def rstrip_nl_snoc rstrip_nl_idem)
qed

lemma foldl_write_data:
  "data_dir s = dd \<Longrightarrow> d \<noteq> ''..'' \<Longrightarrow> map_of (disk s) d = Some (File f) \<Longrightarrow>
   \<exists>f'. content f' = content f @ concat (map g ls)
       \<and> map_of (disk (foldl (\<lambda>s' l. write_data (dd @ [d]) (g l) t s') s ls))
           = (map_of (disk s))(d \<mapsto> File f')
       \<and> data_dir (foldl (\<lambda>s' l. write_data (dd @ [d]) (g l) t s') s ls) = dd
       \<and> index (foldl (\<lambda>s' l. write_data (dd @ [d]) (g l) t s') s ls) = index s"
proof (induction ls arbitrary: s f)
  case Nil
  then show ?case by (intro exI [of _ f]) (simp add: fun_upd_idem)
next
  case (Cons l ls)
  let ?s1 = "write_data (dd @ [d]) (g l) t s"
  obtain f1 where f1: "map_of (disk ?s1) d = Some (File f1)" "content f1 = content f @ g l"
    "data_dir ?s1 = dd" "index ?s1 = index s" "map_of (disk ?s1) = (map_of (disk s))(d \<mapsto> File f1)"
  proof (cases "g l = []")
    case True
    with Cons.prems have "?s1 = s" by (simp add: write_data_child)
    moreover have "map_of (disk s) = (map_of (disk s))(d \<mapsto> File f)" using Cons.prems by auto
    ultimately show ?thesis using that [of f] Cons.prems True by simp
  next
    case False
    with Cons.prems show ?thesis
      using that [of "new_file (content f @ g l) t"]
      by (simp add: write_data_child update_conv' new_file_def)
  qed
  from Cons.IH [OF f1(3) Cons.prems(2) f1(1)] obtain f' where
    "content f' = content f1 @ concat (map g ls)"
    "map_of (disk (foldl (\<lambda>s' l. write_data (dd @ [d]) (g l) t s') ?s1 ls))
       = (map_of (disk ?s1))(d \<mapsto> File f')"
    "data_dir (foldl (\<lambda>s' l. write_data (dd @ [d]) (g l) t s') ?s1 ls) = dd"
    "index (foldl (\<lambda>s' l. write_data (dd @ [d]) (g l) t s') ?s1 ls) = index ?s1"
    by blast
  with f1 show ?case by auto
qed


lemma write_index_other:
  "k \<noteq> INDEX_TMPNAME \<Longrightarrow> k \<noteq> INDEX_FILENAME \<Longrightarrow>
   map_of (disk (snd (write_index dump t s))) k = map_of (disk s) k"
  by (simp add: write_index_eq update_conv' delete_conv')

lemma write_index_data_dir: "data_dir (snd (write_index dump t s)) = data_dir s"
  by (simp add: write_index_eq)

lemma write_index_ok:
  "(fst (write_index dump t s) = Inr ()) =
     (map_of (disk s) INDEX_TMPNAME \<noteq> Some Dir \<and> map_of (disk s) INDEX_FILENAME \<noteq> Some Dir)"
  by (simp add: write_index_eq)

lemma file_path_child:
  assumes fp: "file_path s name = Inr p" and ex: "node_at s p = Some (File f)"
  shows "\<exists>d. sanitize_filename name = Inr d \<and> p = data_dir s @ [d] \<and> d \<noteq> ''..''
             \<and> d \<noteq> INDEX_FILENAME \<and> path_name p = d \<and> map_of (disk s) d = Some (File f)"
proof -
  from fp obtain d where d: "sanitize_filename name = Inr d" "p = joinpath (data_dir s) d"
    by (auto simp: file_path_def split: sum.splits)
  from ex d(2) have nd: "d \<noteq> ''.''" "d \<noteq> ''..''"
    by (auto simp: node_at_joinpath split: if_splits)
  then have p: "p = data_dir s @ [d]" using d(2) by (simp add: joinpath_def)
  with ex nd have "map_of (disk s) d = Some (File f)" by simp
  moreover have "d \<noteq> INDEX_FILENAME" using d(1) by (rule sanitize_not_index)
  moreover have "path_name p = d" by (simp add: p path_name_def)
  ultimately show ?thesis using d(1) p nd by blast
qed

text \<open>
  C4 (as the spec states it, refuted). Appending the single entry \<open>x\ny\<close> to the
  empty \<open>a.txt\<close> succeeds, and reading back yields the two lines \<open>x\<close> and \<open>y\<close>, not
  the one normalized entry. Appending \<open>x\<close> to \<open>b.txt\<close>, whose content \<open>hello\<close> has no
  final newline, yields the single line \<open>hellox\<close>, not \<open>hello\<close> followed by \<open>x\<close>.
\<close>

theorem add_lines_not_line_by_line:
  "show_file ''a.txt'' one_doc = Inr []
   \<and> fst (add_lines example_dump ''a.txt'' [''x'' @ [LF] @ ''y''] 2 2 one_doc) = Inr ()
   \<and> show_file ''a.txt'' (snd (add_lines example_dump ''a.txt'' [''x'' @ [LF] @ ''y''] 2 2 one_doc))
       = Inr [''x'', ''y'']
   \<and> show_file ''a.txt'' (snd (add_lines example_dump ''a.txt'' [''x'' @ [LF] @ ''y''] 2 2 one_doc))
       \<noteq> Inr ([] @ map rstrip_nl [''x'' @ [LF] @ ''y''])
   \<and> show_file ''b.txt'' with_untracked = Inr [''hello'']
   \<and> fst (add_lines example_dump ''b.txt'' [''x''] 6 6 with_untracked) = Inr ()
   \<and> show_file ''b.txt'' (snd (add_lines example_dump ''b.txt'' [''x''] 6 6 with_untracked))
       = Inr [''hellox'']
   \<and> show_file ''b.txt'' (snd (add_lines example_dump ''b.txt'' [''x''] 6 6 with_untracked))
       \<noteq> Inr ([''hello''] @ map rstrip_nl [''x''])"
  by code_simp

text \<open>
  C4 (amended). Let the document exist as a regular file that is not named
  \<open>index.tmp\<close>, let its content be empty or end with a newline, and let no entry of
  \<open>ls\<close>, once its trailing newlines are stripped, contain a newline or a carriage
  return. Then \<open>show_file\<close> after \<open>add_lines\<close> yields the lines \<open>show_file\<close> yielded
  before, followed by the entries of \<open>ls\<close> in order, each without its trailing
  newlines. \<open>add_lines\<close> itself returns normally exactly when neither \<open>index.tmp\<close> nor
  \<open>index.json\<close> is a directory; the document is extended in either case.
\<close>

theorem add_lines_then_show:
  assumes fp: "file_path s name = Inr p"
    and ex: "node_at s p = Some (File f)"
    and tmp: "path_name p \<noteq> INDEX_TMPNAME"
    and tm: "content f = [] \<or> last (content f) = LF"
    and plain: "\<forall>l \<in> set ls. LF \<notin> set (rstrip_nl l) \<and> CR \<notin> set (rstrip_nl l)"
  shows
  "show_file name s = Inr (map rstrip_nl (read_lines (content f)))
   \<and> show_file name (snd (add_lines dump name ls t now s))
       = Inr (map rstrip_nl (read_lines (content f)) @ map rstrip_nl ls)
   \<and> ((fst (add_lines dump name ls t now s) = Inr ()) =
        (map_of (disk s) INDEX_TMPNAME \<noteq> Some Dir \<and> map_of (disk s) INDEX_FILENAME \<noteq> Some Dir))"
proof -
  from file_path_child [OF fp ex] obtain d where
    d: "sanitize_filename name = Inr d" "p = data_dir s @ [d]" "d \<noteq> ''..''"
       "d \<noteq> INDEX_FILENAME" "path_name p = d" "map_of (disk s) d = Some (File f)"
    by blast
  from tmp d(5) have dt: "d \<noteq> INDEX_TMPNAME" by simp
  let ?g = "\<lambda>l. rstrip_nl l @ [LF]"
  let ?s2 = "foldl (\<lambda>s' line. write_data p (rstrip_nl line @ [LF]) t s') s ls"
  from foldl_write_data [OF refl d(3) d(6), of ?g ls t] obtain f' where
    f': "content f' = content f @ concat (map ?g ls)"
        "map_of (disk ?s2) = (map_of (disk s))(d \<mapsto> File f')"
        "data_dir ?s2 = data_dir s"
    unfolding d(2) by blast
  have n2: "node_at ?s2 p = Some (File f')"
    using f'(2,3) d(3) by (simp add: d(2) node_at_child_of)
  define ix where "ix = AList.update (path_name p)
       (case map_of (index ?s2) (path_name p) of
          None \<Rightarrow> \<lparr>filename = path_name p, created_at = now, last_modified = now,
                    size_bytes = st_size f', tags = []\<rparr>
        | Some m \<Rightarrow> m\<lparr>last_modified := now, size_bytes := st_size f'\<rparr>) (index ?s2)"
  have um: "update_meta_for dump p t now ?s2 = write_index dump t (?s2\<lparr>index := ix\<rparr>)"
    by (simp add: update_meta_for_def n2 Let_def ix_def)
  have al: "add_lines dump name ls t now s = write_index dump t (?s2\<lparr>index := ix\<rparr>)"
    using fp ex by (simp add: add_lines_def open_a_def um)
  let ?s' = "snd (add_lines dump name ls t now s)"
  have dd: "data_dir ?s' = data_dir s"
    by (simp add: al write_index_data_dir f'(3))
  have at_d: "map_of (disk ?s') d = Some (File f')"
    using d(4) dt by (simp add: al write_index_other f'(2))
  have fp': "file_path ?s' name = Inr p"
    using fp by (simp add: file_path_def d(1) dd)
  have n': "node_at ?s' p = Some (File f')"
    using at_d dd d(3) by (simp add: d(2) node_at_child_of)
  have before: "show_file name s = Inr (map rstrip_nl (read_lines (content f)))"
    using fp ex by (simp add: show_file_def)
  have "show_file name ?s' = Inr (map rstrip_nl (read_lines (content f')))"
    using fp' n' by (simp add: show_file_def)
  then have after: "show_file name ?s'
                      = Inr (map rstrip_nl (read_lines (content f)) @ map rstrip_nl ls)"
    by (simp add: f'(1) read_lines_appended [OF tm plain])
  have "map_of (disk ?s2) INDEX_TMPNAME = map_of (disk s) INDEX_TMPNAME"
       "map_of (disk ?s2) INDEX_FILENAME = map_of (disk s) INDEX_FILENAME"
    using d(4) dt by (simp_all add: f'(2))
  then have ok: "(fst (add_lines dump name ls t now s) = Inr ()) =
        (map_of (disk s) INDEX_TMPNAME \<noteq> Some Dir \<and> map_of (disk s) INDEX_FILENAME \<noteq> Some Dir)"
    by (simp add: al write_index_ok)
  from before after ok show ?thesis by blast
qed

theorem add_lines_then_show_witness:
  "show_file ''a.txt'' three_lines = Inr [''line one'', ''another line'', ''final'']
   \<and> fst (add_lines example_dump ''a.txt'' [''more'' @ [LF, LF], ''last''] 3 3 three_lines) = Inr ()
   \<and> show_file ''a.txt''
         (snd (add_lines example_dump ''a.txt'' [''more'' @ [LF, LF], ''last''] 3 3 three_lines))
       = Inr [''line one'', ''another line'', ''final'', ''more'', ''last'']"
proof -
  let ?f = "new_file (''line one'' @ [LF] @ ''another line'' @ [LF] @ ''final'' @ [LF]) 2"
  let ?ls = "[''more'' @ [LF, LF], ''last'']"
  have fp: "file_path three_lines ''a.txt'' = Inr (example_dir @ [''a.txt''])" by code_simp
  have ex: "node_at three_lines (example_dir @ [''a.txt'']) = Some (File ?f)" by code_simp
  have tmp: "path_name (example_dir @ [''a.txt'']) \<noteq> INDEX_TMPNAME" by code_simp
  have tm: "content ?f = [] \<or> last (content ?f) = LF" by code_simp
  have plain: "\<forall>l \<in> set ?ls. LF \<notin> set (rstrip_nl l) \<and> CR \<notin> set (rstrip_nl l)"
    by code_simp
  have old: "map rstrip_nl (read_lines (content ?f)) = [''line one'', ''another line'', ''final'']"
    by code_simp
  have new: "map rstrip_nl ?ls = [''more'', ''last'']" by code_simp
  have nodirs: "map_of (disk three_lines) INDEX_TMPNAME \<noteq> Some Dir
                \<and> map_of (disk three_lines) INDEX_FILENAME \<noteq> Some Dir"
    by code_simp
  show ?thesis
    using add_lines_then_show [OF fp ex tmp tm plain, of example_dump 3 3] old new nodirs
    by simp
qed

end
